theory Spec2Isabelle
  imports Complex_Main "HOL-Library.Char_ord" "HOL-Library.List_Lexorder" "HOL-Library.Sublist"
begin

section \<open>Python values used by the downloader\<close>

text \<open>
  Exceptions that escape a modelled function are values of \<open>py_error\<close>; a function that can
  raise returns \<open>py_error + 'a\<close> with \<open>Inl\<close> for the exception.
\<close>

datatype py_error = ValueError | OverflowError

type_synonym bytes = "char list"

subsection \<open>Decimal formatting and parsing\<close>

definition digit_char :: "nat \<Rightarrow> char" where
  "digit_char n = char_of (48 + n)"

definition digit_val :: "char \<Rightarrow> nat" where
  "digit_val c = of_char c - 48"

definition is_digit :: "char \<Rightarrow> bool" where
  "is_digit c = (48 \<le> (of_char c :: nat) \<and> (of_char c :: nat) \<le> 57)"

text \<open>\<open>str(n)\<close> for a non-negative integer.\<close>

fun str_nat :: "nat \<Rightarrow> string" where
  "str_nat n = (if n < 10 then [digit_char n] else str_nat (n div 10) @ [digit_char (n mod 10)])"

declare str_nat.simps [simp del]

definition pad_left :: "nat \<Rightarrow> string \<Rightarrow> string" where
  "pad_left w s = replicate (w - length s) (CHR ''0'') @ s"

text \<open>The format specification \<open>{n:02d}\<close>: decimal, zero-padded to at least two characters.\<close>

definition fmt_02d :: "nat \<Rightarrow> string" where
  "fmt_02d n = pad_left 2 (str_nat n)"

text \<open>\<open>int(s)\<close> on a string of decimal digits (the only strings the URL pattern hands to it).\<close>

definition int_of_digits :: "string \<Rightarrow> nat" where
  "int_of_digits s = foldl (\<lambda>a c. 10 * a + digit_val c) 0 s"

subsection \<open>datetime\<close>

text \<open>
  A \<open>datetime\<close> holds the calendar fields, the time of day and \<open>tzinfo\<close>, which is \<open>None\<close>
  for a naive datetime and the time zone, by name, of an aware one. Python keeps the year in
  \<open>MINYEAR = 1 .. MAXYEAR = 9999\<close>; the constructor raises \<open>ValueError\<close> outside the calendar and
  arithmetic raises \<open>OverflowError\<close> when it leaves that range. The program never looks into
  \<open>tzinfo\<close>: \<open>strftime\<close> with \<open>%Y\<close>, \<open>%m\<close>, \<open>%d\<close> and \<open>timedelta\<close> arithmetic work on
  the wall-clock fields and keep it. Equality of records is Python's \<open>==\<close> whenever one side
  is naive, the only equality stated below: a naive datetime equals the naive datetimes with
  the same fields and no aware one. (The attribute \<open>fold\<close>, which \<open>==\<close> between naive
  datetimes ignores, is left out.)
\<close>

record datetime =
  year :: nat
  month :: nat
  day :: nat
  hour :: nat
  minute :: nat
  second :: nat
  microsecond :: nat
  tzinfo :: "string option"

definition is_leap :: "nat \<Rightarrow> bool" where
  "is_leap y = (y mod 4 = 0 \<and> (y mod 100 \<noteq> 0 \<or> y mod 400 = 0))"

definition days_in_month :: "nat \<Rightarrow> nat \<Rightarrow> nat" where
  "days_in_month y m =
     (if m = 2 then (if is_leap y then 29 else 28)
      else if m = 4 \<or> m = 6 \<or> m = 9 \<or> m = 11 then 30 else 31)"

definition valid_datetime :: "datetime \<Rightarrow> bool" where
  "valid_datetime d =
     (1 \<le> year d \<and> year d \<le> 9999 \<and> 1 \<le> month d \<and> month d \<le> 12 \<and>
      1 \<le> day d \<and> day d \<le> days_in_month (year d) (month d) \<and>
      hour d < 24 \<and> minute d < 60 \<and> second d < 60 \<and> microsecond d < 1000000)"

text \<open>
  \<open>datetime(y, m, d)\<close>: the naive midnight of that date, or \<open>None\<close> for the \<open>ValueError\<close>.
\<close>

definition datetime_new :: "nat \<Rightarrow> nat \<Rightarrow> nat \<Rightarrow> datetime option" where
  "datetime_new y m d =
     (if 1 \<le> y \<and> y \<le> 9999 \<and> 1 \<le> m \<and> m \<le> 12 \<and> 1 \<le> d \<and> d \<le> days_in_month y m
      then Some \<lparr>year = y, month = m, day = d, hour = 0, minute = 0, second = 0, microsecond = 0,
                 tzinfo = None\<rparr>
      else None)"

text \<open>
  The date of a datetime at 00:00:00 and naive, which is what
  \<open>datetime(d.year, d.month, d.day)\<close> rebuilds.
\<close>

definition at_midnight :: "datetime \<Rightarrow> datetime" where
  "at_midnight d = d\<lparr>hour := 0, minute := 0, second := 0, microsecond := 0, tzinfo := None\<rparr>"

text \<open>
  Comparison of two datetimes with the same \<open>tzinfo\<close> is lexicographic on the wall-clock
  fields. The program compares only \<open>current_date\<close> with \<open>end_date\<close>, and the first is the
  second moved by \<open>timedelta\<close>s, so the two always share their \<open>tzinfo\<close>.
\<close>

definition dt_key :: "datetime \<Rightarrow> nat list" where
  "dt_key d = [year d, month d, day d, hour d, minute d, second d, microsecond d]"

definition datetime_le :: "datetime \<Rightarrow> datetime \<Rightarrow> bool" where
  "datetime_le a b = (dt_key a \<le> dt_key b)"

text \<open>
  \<open>d + timedelta(days=1)\<close> and \<open>d - timedelta(days=1)\<close>; \<open>None\<close> is the \<open>OverflowError\<close>
  past 9999-12-31 or before 0001-01-01. The time of day and \<open>tzinfo\<close> are kept.
\<close>

definition next_day :: "datetime \<Rightarrow> datetime option" where
  "next_day d =
     (if day d < days_in_month (year d) (month d) then Some (d\<lparr>day := day d + 1\<rparr>)
      else if month d < 12 then Some (d\<lparr>month := month d + 1, day := 1\<rparr>)
      else if year d < 9999 then Some (d\<lparr>year := year d + 1, month := 1, day := 1\<rparr>)
      else None)"

definition prev_day :: "datetime \<Rightarrow> datetime option" where
  "prev_day d =
     (if 1 < day d then Some (d\<lparr>day := day d - 1\<rparr>)
      else if 1 < month d
        then Some (d\<lparr>month := month d - 1, day := days_in_month (year d) (month d - 1)\<rparr>)
      else if 1 < year d then Some (d\<lparr>year := year d - 1, month := 12, day := 31\<rparr>)
      else None)"

fun minus_days :: "datetime \<Rightarrow> nat \<Rightarrow> datetime option" where
  "minus_days d 0 = Some d"
| "minus_days d (Suc n) = (case minus_days d n of None \<Rightarrow> None | Some e \<Rightarrow> prev_day e)"

fun plus_days :: "datetime \<Rightarrow> nat \<Rightarrow> datetime option" where
  "plus_days d 0 = Some d"
| "plus_days d (Suc n) = (case plus_days d n of None \<Rightarrow> None | Some e \<Rightarrow> next_day e)"

text \<open>\<open>d - timedelta(days=k)\<close> for any integer \<open>k\<close>.\<close>

definition sub_timedelta_days :: "datetime \<Rightarrow> int \<Rightarrow> datetime option" where
  "sub_timedelta_days d k = (if 0 \<le> k then minus_days d (nat k) else plus_days d (nat (- k)))"

text \<open>
  \<open>strftime\<close> with \<open>%Y\<close>, \<open>%m\<close>, \<open>%d\<close>. The month and the day are two digits,
  zero-padded. The year is handed to the C library, and on Linux (glibc) \<open>%Y\<close> is the decimal
  year with no padding: \<open>datetime(999, 1, 1).strftime("%Y")\<close> is \<open>999\<close>, three characters.
\<close>

definition strftime_Y :: "datetime \<Rightarrow> string" where
  "strftime_Y d = str_nat (year d)"

definition strftime_m :: "datetime \<Rightarrow> string" where
  "strftime_m d = pad_left 2 (str_nat (month d))"

definition strftime_d :: "datetime \<Rightarrow> string" where
  "strftime_d d = pad_left 2 (str_nat (day d))"

section \<open>URLGenerator\<close>

definition BASE_URL :: string where
  "BASE_URL = ''https://sdo.gsfc.nasa.gov/assets/img/browse''"

definition RESOLUTION :: string where
  "RESOLUTION = ''4096''"

definition INSTRUMENT_CODE :: string where
  "INSTRUMENT_CODE = ''0211''"

definition construct_url :: "datetime \<Rightarrow> string \<Rightarrow> string" where
  "construct_url date time_sequence =
     (let date_str = strftime_Y date @ strftime_m date @ strftime_d date;
          filename = date_str @ ''_'' @ time_sequence @ ''_'' @ RESOLUTION @ ''_''
                     @ INSTRUMENT_CODE @ ''.jpg''
      in BASE_URL @ ''/'' @ strftime_Y date @ ''/'' @ strftime_m date @ ''/''
         @ strftime_d date @ ''/'' @ filename)"

text \<open>
  The compiled \<open>url_pattern\<close>, applied with \<open>match\<close> (anchored at the start only): literal
  text and fixed-width digit groups, so matching is a left-to-right scan. The result is the
  five groups.
\<close>

definition take_literal :: "string \<Rightarrow> string \<Rightarrow> string option" where
  "take_literal lit s = (if take (length lit) s = lit then Some (drop (length lit) s) else None)"

definition take_digits :: "nat \<Rightarrow> string \<Rightarrow> (string \<times> string) option" where
  "take_digits n s =
     (if n \<le> length s \<and> list_all is_digit (take n s) then Some (take n s, drop n s) else None)"

definition url_pattern_match :: "string \<Rightarrow> (string \<times> string \<times> string \<times> string \<times> string) option" where
  "url_pattern_match url =
     (case take_literal ''https://sdo.gsfc.nasa.gov/assets/img/browse/'' url of None \<Rightarrow> None
      | Some s0 \<Rightarrow>
     (case take_digits 4 s0 of None \<Rightarrow> None | Some (y, s1) \<Rightarrow>
     (case take_literal ''/'' s1 of None \<Rightarrow> None | Some s2 \<Rightarrow>
     (case take_digits 2 s2 of None \<Rightarrow> None | Some (m, s3) \<Rightarrow>
     (case take_literal ''/'' s3 of None \<Rightarrow> None | Some s4 \<Rightarrow>
     (case take_digits 2 s4 of None \<Rightarrow> None | Some (d, s5) \<Rightarrow>
     (case take_literal ''/'' s5 of None \<Rightarrow> None | Some s6 \<Rightarrow>
     (case take_digits 8 s6 of None \<Rightarrow> None | Some (date_part, s7) \<Rightarrow>
     (case take_literal ''_'' s7 of None \<Rightarrow> None | Some s8 \<Rightarrow>
     (case take_digits 6 s8 of None \<Rightarrow> None | Some (time_part, s9) \<Rightarrow>
     (case take_literal ''_4096_0211.jpg'' s9 of None \<Rightarrow> None
      | Some _ \<Rightarrow> Some (y, m, d, date_part, time_part))))))))))))"

text \<open>
  \<open>extract_metadata_from_url\<close>: \<open>None\<close> stands for the pair \<open>(None, None)\<close>, returned when
  the pattern does not match or \<open>datetime(...)\<close> raises.
\<close>

definition extract_metadata_from_url :: "string \<Rightarrow> (datetime \<times> string) option" where
  "extract_metadata_from_url url =
     (case url_pattern_match url of
        None \<Rightarrow> None
      | Some (y, m, d, date_part, time_part) \<Rightarrow>
          (case datetime_new (int_of_digits y) (int_of_digits m) (int_of_digits d) of
             None \<Rightarrow> None
           | Some date \<Rightarrow> Some (date, time_part)))"

definition time_patterns :: "string list" where
  "time_patterns =
     concat (map (\<lambda>h. concat (map (\<lambda>mi. map (\<lambda>s. fmt_02d h @ fmt_02d mi @ fmt_02d s)
                                          [0, 30, 59])
                               [0, 12, 24, 36, 48]))
                 [0..<24])"

definition generate_daily_urls :: "datetime \<Rightarrow> string list" where
  "generate_daily_urls date = map (construct_url date) time_patterns"

text \<open>
  The loop \<open>while current_date <= end_date\<close> with \<open>current_date += timedelta(days=1)\<close>. It is
  written twice in the source, in \<open>generate_date_range_urls\<close> and in
  \<open>MonitoringLoop._check_for_new_images\<close>, with the same body.
\<close>

lemma days_in_month_le_31: "days_in_month y m \<le> 31"
  by (simp add: days_in_month_def)

function daily_urls_loop :: "datetime \<Rightarrow> datetime \<Rightarrow> string list \<Rightarrow> py_error + string list" where
  "daily_urls_loop current_date end_date urls =
     (if datetime_le current_date end_date then
        (case next_day current_date of
           None \<Rightarrow> Inl OverflowError
         | Some nxt \<Rightarrow> daily_urls_loop nxt end_date (urls @ generate_daily_urls current_date))
      else Inr urls)"
  by pat_completeness auto
termination
proof (relation "measures [\<lambda>(c, e, u). 9999 - year c, \<lambda>(c, e, u). 12 - month c,
                           \<lambda>(c, e, u). 31 - day c]", goal_cases)
  case 1
  show ?case by (rule wf_measures)
next
  case (2 current_date end_date urls nxt)
  have "days_in_month (year current_date) (month current_date) \<le> 31"
    by (rule days_in_month_le_31)
  with 2 show ?case
    by (auto simp: next_day_def split: if_splits)
qed

declare daily_urls_loop.simps [simp del]

definition generate_date_range_urls :: "datetime \<Rightarrow> int \<Rightarrow> datetime option \<Rightarrow> py_error + string list" where
  "generate_date_range_urls now days end_date_arg =
     (let end_date = (case end_date_arg of None \<Rightarrow> now | Some e \<Rightarrow> e) in
      case sub_timedelta_days end_date (days - 1) of
        None \<Rightarrow> Inl OverflowError
      | Some start_date \<Rightarrow> daily_urls_loop start_date end_date [])"

text \<open>
  The datetimes \<open>d - k days, \<dots>, d - 1 day, d\<close> in ascending order (those that Python can
  represent): the calendar window that ends at \<open>d\<close> and reaches \<open>k\<close> days back.
\<close>

fun last_days :: "datetime \<Rightarrow> nat \<Rightarrow> datetime list" where
  "last_days d 0 = [d]"
| "last_days d (Suc k) = (case minus_days d (Suc k) of None \<Rightarrow> [] | Some e \<Rightarrow> [e]) @ last_days d k"

section \<open>MonitoringLoop\<close>

record monitoring_loop =
  check_interval :: int
  monitoring_range_days :: int
  is_running :: bool
  total_checks :: nat
  new_images_found :: nat
  last_check_time :: "datetime option"

definition monitoring_loop_init :: "int \<Rightarrow> int \<Rightarrow> monitoring_loop" where
  "monitoring_loop_init check_interval_minutes range_days =
     \<lparr>check_interval = check_interval_minutes, monitoring_range_days = range_days,
      is_running = False, total_checks = 0, new_images_found = 0, last_check_time = None\<rparr>"

definition set_monitoring_range :: "monitoring_loop \<Rightarrow> int \<Rightarrow> py_error + monitoring_loop" where
  "set_monitoring_range ml days =
     (if days < 1 then Inl ValueError else Inr (ml\<lparr>monitoring_range_days := days\<rparr>))"

definition get_monitoring_range :: "monitoring_loop \<Rightarrow> int" where
  "get_monitoring_range ml = monitoring_range_days ml"

text \<open>
  The first step of \<open>_check_for_new_images\<close>: the list \<open>recent_urls\<close> built from
  \<open>end_date = datetime.now()\<close> and \<open>start_date = end_date - timedelta(days=monitoring_range_days)\<close>.
  \<open>Inl\<close> is the exception that the cycle's \<open>except Exception\<close> catches and logs, ending the
  cycle with no URL generated.
\<close>

definition check_for_new_images_recent_urls :: "monitoring_loop \<Rightarrow> datetime \<Rightarrow> py_error + string list" where
  "check_for_new_images_recent_urls ml now =
     (let end_date = now in
      case sub_timedelta_days end_date (monitoring_range_days ml) of
        None \<Rightarrow> Inl OverflowError
      | Some start_date \<Rightarrow> daily_urls_loop start_date end_date [])"

section \<open>The world outside the program: clock, network and disk\<close>

text \<open>
  Wall-clock seconds are exact rationals. The world holds the clock read by \<open>time.time()\<close>,
  the trace of every HTTP request (with the clock value at which it was issued) and every
  \<open>time.sleep\<close> so far, and the files on disk by path.
\<close>

datatype http_method = GET | HEAD

datatype sleep_kind = RateLimit | Backoff

datatype event = Request http_method string rat | Sleep sleep_kind rat

text \<open>
  What one call of \<open>session.get\<close> or \<open>session.head\<close> gives back: a response with its
  status code, body and \<open>Content-Length\<close> header, or one of the exceptions that
  \<open>download_image\<close> tells apart. One such call is one request of the model; what the
  transport adapter does inside the call is not modelled.
\<close>

datatype http_outcome =
    Response nat bytes "string option"
  | Timeout
  | ConnectionError
  | OtherException string

text \<open>
  The adapter that \<open>ImageFetcher.__init__\<close> mounts on the session retries, inside the call, a
  \<open>GET\<close> that is answered with a status of \<open>status_forcelist\<close>, and the call raises when
  these retries are used up. So \<open>session.get\<close> never hands such a response to its caller;
  \<open>session.head\<close> does, \<open>HEAD\<close> not being among the adapter's \<open>allowed_methods\<close>.
  \<open>session_returns\<close> tells the outcomes that a call can have.
\<close>

definition status_forcelist :: "nat list" where
  "status_forcelist = [429, 500, 502, 503, 504]"

fun session_returns :: "http_method \<Rightarrow> http_outcome \<Rightarrow> bool" where
  "session_returns GET (Response status_code content hdr) = (status_code \<notin> set status_forcelist)"
| "session_returns meth outcome = True"

datatype write_result = Written bytes | WriteError string

record world =
  clock :: rat
  trace :: "event list"
  files :: "string list \<rightharpoonup> bytes"

text \<open>
  The environment answers the program: the outcome and the duration of the \<open>n\<close>-th request,
  what a write of bytes to a path leaves on disk (or the exception it raises), and Python's
  \<open>int()\<close> on a header text (\<open>None\<close> for its \<open>ValueError\<close>).
\<close>

record env =
  respond :: "nat \<Rightarrow> http_method \<Rightarrow> string \<Rightarrow> http_outcome"
  latency :: "nat \<Rightarrow> rat"
  disk_write :: "string list \<Rightarrow> bytes \<Rightarrow> write_result"
  int_of_header :: "string \<Rightarrow> int option"

fun is_request :: "event \<Rightarrow> bool" where
  "is_request (Request _ _ _) = True"
| "is_request (Sleep _ _) = False"

definition request_count :: "world \<Rightarrow> nat" where
  "request_count w = length (filter is_request (trace w))"

definition sleep :: "sleep_kind \<Rightarrow> rat \<Rightarrow> world \<Rightarrow> world" where
  "sleep kind seconds w = w\<lparr>clock := clock w + seconds, trace := trace w @ [Sleep kind seconds]\<rparr>"

definition http_request :: "env \<Rightarrow> http_method \<Rightarrow> string \<Rightarrow> world \<Rightarrow> http_outcome \<times> world" where
  "http_request e meth url w =
     (respond e (request_count w) meth url,
      w\<lparr>clock := clock w + latency e (request_count w),
        trace := trace w @ [Request meth url (clock w)]\<rparr>)"

text \<open>Observations of a trace: the times of its requests, and its backoff sleeps.\<close>

fun request_times :: "event list \<Rightarrow> rat list" where
  "request_times [] = []"
| "request_times (Request _ _ t # es) = t # request_times es"
| "request_times (Sleep _ _ # es) = request_times es"

fun backoff_sleeps :: "event list \<Rightarrow> rat list" where
  "backoff_sleeps [] = []"
| "backoff_sleeps (Sleep Backoff s # es) = s # backoff_sleeps es"
| "backoff_sleeps (_ # es) = backoff_sleeps es"

text \<open>The events that a step from world \<open>w\<close> to world \<open>w'\<close> added to the trace.\<close>

definition new_events :: "world \<Rightarrow> world \<Rightarrow> event list" where
  "new_events w w' = drop (length (trace w)) (trace w')"

definition first_new_request :: "world \<Rightarrow> world \<Rightarrow> event option" where
  "first_new_request w w' = find is_request (new_events w w')"

section \<open>ImageFetcher\<close>

record image_fetcher =
  rate_limit_delay :: rat
  max_retries :: int
  last_request_time :: rat

definition image_fetcher_init :: "rat \<Rightarrow> int \<Rightarrow> image_fetcher" where
  "image_fetcher_init delay retries =
     \<lparr>rate_limit_delay = delay, max_retries = retries, last_request_time = 0\<rparr>"

definition enforce_rate_limit :: "image_fetcher \<Rightarrow> world \<Rightarrow> image_fetcher \<times> world" where
  "enforce_rate_limit f w =
     (let current_time = clock w;
          time_since_last = current_time - last_request_time f;
          w' = (if time_since_last < rate_limit_delay f
                then sleep RateLimit (rate_limit_delay f - time_since_last) w else w)
      in (f\<lparr>last_request_time := clock w'\<rparr>, w'))"

definition exponential_backoff :: "nat \<Rightarrow> nat" where
  "exponential_backoff attempt = min (2 ^ attempt) 60"

text \<open>
  The result of \<open>download_image\<close> is the triple \<open>(success, image_data, error_message)\<close>.
  \<open>download_attempts\<close> is the loop \<open>for attempt in range(self.max_retries)\<close> from the given
  attempt on, with the return after the loop as its last branch.
\<close>

type_synonym download_result = "bool \<times> bytes option \<times> string option"

function download_attempts ::
  "env \<Rightarrow> image_fetcher \<Rightarrow> string \<Rightarrow> nat \<Rightarrow> world \<Rightarrow> download_result \<times> world" where
  "download_attempts e f url attempt w =
     (if int attempt < max_retries f then
        (case http_request e GET url w of (outcome, w1) \<Rightarrow>
          (case outcome of
             Response status_code content hdr \<Rightarrow>
               if status_code = 200 then ((True, Some content, None), w1)
               else if status_code = 404 then
                 ((False, None, Some (''Image not found (404): '' @ url)), w1)
               else if int attempt < max_retries f - 1 then
                 download_attempts e f url (Suc attempt)
                   (sleep Backoff (of_nat (exponential_backoff attempt)) w1)
               else ((False, None, Some (''HTTP '' @ str_nat status_code @ '': '' @ url)), w1)
           | Timeout \<Rightarrow>
               if int attempt < max_retries f - 1 then
                 download_attempts e f url (Suc attempt)
                   (sleep Backoff (of_nat (exponential_backoff attempt)) w1)
               else ((False, None, Some (''Timeout downloading: '' @ url)), w1)
           | ConnectionError \<Rightarrow>
               if int attempt < max_retries f - 1 then
                 download_attempts e f url (Suc attempt)
                   (sleep Backoff (of_nat (exponential_backoff attempt)) w1)
               else ((False, None, Some (''Connection error downloading: '' @ url)), w1)
           | OtherException msg \<Rightarrow>
               ((False, None, Some (''Unexpected error downloading '' @ url @ '': '' @ msg)), w1)))
      else ((False, None, Some (''Max retries exceeded for: '' @ url)), w))"
  by pat_completeness auto
termination
  by (relation "measure (\<lambda>(e, f, url, attempt, w). nat (max_retries f - int attempt))") auto

declare download_attempts.simps [simp del]

definition download_image ::
  "env \<Rightarrow> image_fetcher \<Rightarrow> world \<Rightarrow> string \<Rightarrow> download_result \<times> image_fetcher \<times> world" where
  "download_image e f w url =
     (case enforce_rate_limit f w of (f1, w1) \<Rightarrow>
        (case download_attempts e f1 url 0 w1 of (result, w2) \<Rightarrow> (result, f1, w2)))"

definition check_image_exists ::
  "env \<Rightarrow> image_fetcher \<Rightarrow> world \<Rightarrow> string \<Rightarrow> bool \<times> image_fetcher \<times> world" where
  "check_image_exists e f w url =
     (case enforce_rate_limit f w of (f1, w1) \<Rightarrow>
        (case http_request e HEAD url w1 of (outcome, w2) \<Rightarrow>
           ((case outcome of Response status_code content hdr \<Rightarrow> status_code = 200
             | _ \<Rightarrow> False), f1, w2)))"

definition get_image_size ::
  "env \<Rightarrow> image_fetcher \<Rightarrow> world \<Rightarrow> string \<Rightarrow> int option \<times> image_fetcher \<times> world" where
  "get_image_size e f w url =
     (case enforce_rate_limit f w of (f1, w1) \<Rightarrow>
        (case http_request e HEAD url w1 of (outcome, w2) \<Rightarrow>
           ((case outcome of
               Response status_code content hdr \<Rightarrow>
                 if status_code = 200 then
                   (case hdr of None \<Rightarrow> None
                    | Some content_length \<Rightarrow>
                        if content_length \<noteq> [] then int_of_header e content_length else None)
                 else None
             | _ \<Rightarrow> None), f1, w2)))"

text \<open>
  The specification's words for the retries of \<open>download_image\<close>: the events of \<open>n\<close> attempts
  from attempt number \<open>attempt\<close> on, the first request issued at clock \<open>t\<close> as request
  number \<open>c\<close> of the world, and each later one after the duration of the request before it and
  the backoff sleep of that attempt, with nothing else in between.
\<close>

fun retry_schedule :: "env \<Rightarrow> string \<Rightarrow> nat \<Rightarrow> rat \<Rightarrow> nat \<Rightarrow> nat \<Rightarrow> event list" where
  "retry_schedule e u attempt t c 0 = []"
| "retry_schedule e u attempt t c (Suc 0) = [Request GET u t]"
| "retry_schedule e u attempt t c (Suc (Suc n)) =
     Request GET u t # Sleep Backoff (of_nat (exponential_backoff attempt))
       # retry_schedule e u (Suc attempt)
           (t + latency e c + of_nat (exponential_backoff attempt)) (Suc c) (Suc n)"

text \<open>
  The specification's words for the rate limit, on the times of the requests of a trace:
  every request comes at least \<open>delay\<close> seconds after the request before it.
\<close>

fun spaced_by :: "rat \<Rightarrow> rat list \<Rightarrow> bool" where
  "spaced_by delay (t1 # t2 # ts) = (delay \<le> t2 - t1 \<and> spaced_by delay (t2 # ts))"
| "spaced_by delay _ = True"

text \<open>An event without the time at which it happened.\<close>

fun untimed :: "event \<Rightarrow> event" where
  "untimed (Request meth url t) = Request meth url 0"
| "untimed (Sleep kind seconds) = Sleep kind seconds"

section \<open>StorageOrganizer\<close>

text \<open>
  A path is the list of its components. The storage organizer is modelled by its base
  directory; its resolution and filter settings only select the files that
  \<open>list_local_images\<close> and \<open>cleanup_corrupted_files\<close> look at.
\<close>

record storage_organizer =
  base_data_dir :: "string list"

definition get_date_path :: "storage_organizer \<Rightarrow> datetime \<Rightarrow> string list" where
  "get_date_path st date = base_data_dir st @ [strftime_Y date, strftime_m date, strftime_d date]"

definition get_local_path :: "storage_organizer \<Rightarrow> string \<Rightarrow> datetime \<Rightarrow> string list" where
  "get_local_path st filename date = get_date_path st date @ [filename]"

definition file_exists :: "storage_organizer \<Rightarrow> world \<Rightarrow> string \<Rightarrow> datetime \<Rightarrow> bool" where
  "file_exists st w filename date = (files w (get_local_path st filename date) \<noteq> None)"

definition get_file_size :: "storage_organizer \<Rightarrow> world \<Rightarrow> string \<Rightarrow> datetime \<Rightarrow> nat option" where
  "get_file_size st w filename date =
     (case files w (get_local_path st filename date) of None \<Rightarrow> None
      | Some data \<Rightarrow> Some (length data))"

text \<open>
  \<open>save_image\<close>: \<open>Inl\<close> carries the text of the exception raised while creating the directory
  or writing; otherwise the file holds what the write left on disk.
\<close>

definition save_image ::
  "env \<Rightarrow> storage_organizer \<Rightarrow> world \<Rightarrow> bytes \<Rightarrow> string \<Rightarrow> datetime \<Rightarrow> string + (string list \<times> world)" where
  "save_image e st w image_data filename date =
     (let local_path = get_date_path st date @ [filename] in
      case disk_write e local_path image_data of
        WriteError msg \<Rightarrow> Inl msg
      | Written stored \<Rightarrow> Inr (local_path, w\<lparr>files := (files w)(local_path \<mapsto> stored)\<rparr>))"

definition validate_file_integrity ::
  "storage_organizer \<Rightarrow> world \<Rightarrow> string \<Rightarrow> datetime \<Rightarrow> nat \<Rightarrow> bool" where
  "validate_file_integrity st w filename date expected_size =
     (case get_file_size st w filename date of
        None \<Rightarrow> False
      | Some actual_size \<Rightarrow> if actual_size \<noteq> expected_size then False else True)"

section \<open>DownloadManager\<close>

datatype task_status = PENDING | DOWNLOADING | COMPLETED | FAILED

record download_task =
  url :: string
  target_path :: "string list"
  retry_count :: int
  status :: task_status
  error_message :: "string option"

text \<open>\<open>Path.name\<close>: the last component, or the empty string when there is none.\<close>

definition path_name :: "string list \<Rightarrow> string" where
  "path_name p = (if p = [] then [] else last p)"

text \<open>
  \<open>datetime.strptime(s, '%Y%m%d')\<close>. The format compiles to the regular expression
  \<open>(\d\d\d\d)(1[0-2]|0[1-9]|[1-9])(3[01]|[12]\d|0[1-9]|[1-9]| [1-9])\<close>; the first match in
  the order of the alternatives is taken, text left over after it is an error, and the date
  must exist. \<open>None\<close> is the \<open>ValueError\<close>.
\<close>

definition month_alternatives :: "string \<Rightarrow> (nat \<times> string) list" where
  "month_alternatives s =
     (case s of
        c1 # c2 # r \<Rightarrow>
          (if c1 = CHR ''1'' \<and> c2 \<in> set ''012'' then [(10 + digit_val c2, r)] else [])
          @ (if c1 = CHR ''0'' \<and> c2 \<in> set ''123456789'' then [(digit_val c2, r)] else [])
      | _ \<Rightarrow> [])
     @ (case s of
          c1 # r \<Rightarrow> if c1 \<in> set ''123456789'' then [(digit_val c1, r)] else []
        | [] \<Rightarrow> [])"

definition day_alternatives :: "string \<Rightarrow> (nat \<times> string) list" where
  "day_alternatives s =
     (case s of
        c1 # c2 # r \<Rightarrow>
          (if c1 = CHR ''3'' \<and> c2 \<in> set ''01'' then [(30 + digit_val c2, r)] else [])
          @ (if c1 \<in> set ''12'' \<and> is_digit c2 then [(10 * digit_val c1 + digit_val c2, r)] else [])
          @ (if c1 = CHR ''0'' \<and> c2 \<in> set ''123456789'' then [(digit_val c2, r)] else [])
      | _ \<Rightarrow> [])
     @ (case s of
          c1 # r \<Rightarrow> if c1 \<in> set ''123456789'' then [(digit_val c1, r)] else []
        | [] \<Rightarrow> [])
     @ (case s of
          c1 # c2 # r \<Rightarrow>
            if c1 = CHR '' '' \<and> c2 \<in> set ''123456789'' then [(digit_val c2, r)] else []
        | _ \<Rightarrow> [])"

definition strptime_Ymd :: "string \<Rightarrow> datetime option" where
  "strptime_Ymd s =
     (if 4 \<le> length s \<and> list_all is_digit (take 4 s) then
        (case concat (map (\<lambda>(m, r). map (\<lambda>(d, r'). (m, d, r')) (day_alternatives r))
                          (month_alternatives (drop 4 s))) of
           [] \<Rightarrow> None
         | (m, d, rest) # _ \<Rightarrow>
             if rest = [] then datetime_new (int_of_digits (take 4 s)) m d else None)
      else None)"

record download_manager =
  fetcher :: image_fetcher
  storage :: storage_organizer
  download_count :: nat
  failed_tasks :: "download_task list"

definition download_manager_init :: "image_fetcher \<Rightarrow> storage_organizer \<Rightarrow> download_manager" where
  "download_manager_init f st =
     \<lparr>fetcher = f, storage = st, download_count = 0, failed_tasks = []\<rparr>"

text \<open>
  \<open>download_and_save\<close> returns its boolean together with the manager, the world and the task
  as the call leaves them. \<open>filename.split('_')[0]\<close> is the text before the first underscore.
\<close>

definition download_and_save ::
  "env \<Rightarrow> download_manager \<Rightarrow> world \<Rightarrow> download_task
     \<Rightarrow> bool \<times> download_manager \<times> world \<times> download_task" where
  "download_and_save e mgr w task =
     (let task1 = task\<lparr>status := DOWNLOADING\<rparr>;
          filename = path_name (target_path task);
          date_str = takeWhile (\<lambda>c. c \<noteq> CHR ''_'') filename
      in case strptime_Ymd date_str of
        None \<Rightarrow>
          (False, mgr, w,
           task1\<lparr>status := FAILED,
                 error_message := Some (''Could not parse date from filename: '' @ filename)\<rparr>)
      | Some date \<Rightarrow>
          if file_exists (storage mgr) w filename date
          then (True, mgr, w, task1\<lparr>status := COMPLETED\<rparr>)
          else
            (case download_image e (fetcher mgr) w (url task) of
               ((success, image_data, error_msg), f1, w1) \<Rightarrow>
                 let mgr1 = mgr\<lparr>fetcher := f1\<rparr> in
                 if success \<and> image_data \<noteq> None \<and> image_data \<noteq> Some []
                 then
                   (case save_image e (storage mgr) w1 (the image_data) filename date of
                      Inl msg \<Rightarrow>
                        (False, mgr1, w1,
                         task1\<lparr>status := FAILED,
                               error_message := Some (''Error saving file: '' @ msg)\<rparr>)
                    | Inr (saved_path, w2) \<Rightarrow>
                        if validate_file_integrity (storage mgr) w2 filename date
                             (length (the image_data))
                        then (True, mgr1\<lparr>download_count := download_count mgr1 + 1\<rparr>, w2,
                              task1\<lparr>status := COMPLETED\<rparr>)
                        else (False, mgr1, w2,
                              task1\<lparr>status := FAILED,
                                    error_message := Some ''File integrity check failed''\<rparr>))
                 else
                   (let task2 = task1\<lparr>status := FAILED,
                          error_message := Some (case error_msg of
                                                   None \<Rightarrow> ''Download failed''
                                                 | Some msg \<Rightarrow>
                                                     if msg = [] then ''Download failed'' else msg)\<rparr>
                    in (False, mgr1\<lparr>failed_tasks := failed_tasks mgr1 @ [task2]\<rparr>, w1, task2))))"

definition get_download_count :: "download_manager \<Rightarrow> nat" where
  "get_download_count mgr = download_count mgr"

definition get_failed_tasks :: "download_manager \<Rightarrow> download_task list" where
  "get_failed_tasks mgr = failed_tasks mgr"

text \<open>The dictionary that \<open>MonitoringLoop.get_status\<close> returns, one field for each key.\<close>

record monitoring_status =
  status_is_running :: bool
  status_check_interval_minutes :: int
  status_monitoring_range_days :: int
  status_total_checks :: nat
  status_last_check_time :: "datetime option"
  status_new_images_found :: nat
  status_total_downloads :: nat
  status_failed_downloads :: nat

definition get_status :: "monitoring_loop \<Rightarrow> download_manager \<Rightarrow> monitoring_status" where
  "get_status ml mgr =
     \<lparr>status_is_running = is_running ml,
      status_check_interval_minutes = check_interval ml,
      status_monitoring_range_days = monitoring_range_days ml,
      status_total_checks = total_checks ml,
      status_last_check_time = last_check_time ml,
      status_new_images_found = new_images_found ml,
      status_total_downloads = get_download_count mgr,
      status_failed_downloads = length (get_failed_tasks mgr)\<rparr>"

text \<open>
  The call reached the network fetch and the fetch gave no usable bytes: the date was parsed,
  the file was not on disk, and \<open>download_image\<close> reported failure or returned no data. This
  is the \<open>else\<close> branch of \<open>if success and image_data\<close>.
\<close>

definition fetch_failed :: "env \<Rightarrow> download_manager \<Rightarrow> world \<Rightarrow> download_task \<Rightarrow> bool" where
  "fetch_failed e mgr w task =
     (let filename = path_name (target_path task) in
      case strptime_Ymd (takeWhile (\<lambda>c. c \<noteq> CHR ''_'') filename) of
        None \<Rightarrow> False
      | Some date \<Rightarrow>
          \<not> file_exists (storage mgr) w filename date
          \<and> (case download_image e (fetcher mgr) w (url task) of
               ((success, image_data, error_msg), f1, w1) \<Rightarrow>
                 \<not> (success \<and> image_data \<noteq> None \<and> image_data \<noteq> Some [])))"

section \<open>DirectoryScraper\<close>

record directory_scraper =
  scraper_rate_limit_delay :: rat
  resolution :: string
  solar_filter :: string

text \<open>
  The compiled \<open>file_pattern\<close>, eight digits, an underscore, six digits and the configured
  resolution and filter, which are read as literal text (they are strings of digits).
  \<open>file_pattern_match\<close> is the match at the start of a string, \<open>file_pattern_search\<close> the
  first match anywhere in it (\<open>search\<close>) and \<open>file_pattern_findall\<close> the matches from left to
  right without overlap (\<open>findall\<close>).
\<close>

definition file_pattern_match :: "directory_scraper \<Rightarrow> string \<Rightarrow> string option" where
  "file_pattern_match sc s =
     (case take_digits 8 s of None \<Rightarrow> None | Some (date_part, s1) \<Rightarrow>
     (case take_literal ''_'' s1 of None \<Rightarrow> None | Some s2 \<Rightarrow>
     (case take_digits 6 s2 of None \<Rightarrow> None | Some (time_part, s3) \<Rightarrow>
     (case take_literal (''_'' @ resolution sc @ ''_'' @ solar_filter sc @ ''.jpg'') s3 of
        None \<Rightarrow> None
      | Some _ \<Rightarrow> Some (date_part @ ''_'' @ time_part @ ''_'' @ resolution sc @ ''_''
                         @ solar_filter sc @ ''.jpg'')))))"

fun file_pattern_search :: "directory_scraper \<Rightarrow> string \<Rightarrow> string option" where
  "file_pattern_search sc [] = file_pattern_match sc []"
| "file_pattern_search sc (c # cs) =
     (case file_pattern_match sc (c # cs) of
        Some m \<Rightarrow> Some m
      | None \<Rightarrow> file_pattern_search sc cs)"

lemma take_literal_SomeD: "take_literal lit s = Some r \<Longrightarrow> s = lit @ r"
  by (auto simp: take_literal_def split: if_splits) (metis append_take_drop_id)

lemma take_digits_SomeD:
  "take_digits n s = Some (ds, r) \<Longrightarrow> s = ds @ r \<and> length ds = n \<and> list_all is_digit ds"
  by (auto simp: take_digits_def split: if_splits)

lemma file_pattern_match_prefix:
  assumes "file_pattern_match sc s = Some m"
  shows "\<exists>rest. s = m @ rest" and "8 \<le> length m"
proof -
  from assms obtain date_part s1 s2 time_part s3 s4 where
    a: "take_digits 8 s = Some (date_part, s1)" and b: "take_literal ''_'' s1 = Some s2"
    and c: "take_digits 6 s2 = Some (time_part, s3)"
    and d: "take_literal (''_'' @ resolution sc @ ''_'' @ solar_filter sc @ ''.jpg'') s3 = Some s4"
    and m: "m = date_part @ ''_'' @ time_part @ ''_'' @ resolution sc @ ''_''
                @ solar_filter sc @ ''.jpg''"
    by (auto simp: file_pattern_match_def split: option.splits prod.splits)
  from take_digits_SomeD [OF a] take_literal_SomeD [OF b] take_digits_SomeD [OF c]
    take_literal_SomeD [OF d]
  have "s = m @ s4" and "length date_part = 8"
    by (simp_all add: m)
  then show "\<exists>rest. s = m @ rest" and "8 \<le> length m"
    by (auto simp: m)
qed

lemma file_pattern_match_shorter:
  "file_pattern_match sc s = Some m \<Longrightarrow> length s - length m < length s"
  using file_pattern_match_prefix [of sc s m] by auto

function file_pattern_findall :: "directory_scraper \<Rightarrow> string \<Rightarrow> string list" where
  "file_pattern_findall sc s =
     (case file_pattern_match sc s of
        Some m \<Rightarrow> m # file_pattern_findall sc (drop (length m) s)
      | None \<Rightarrow> (case s of [] \<Rightarrow> [] | c # cs \<Rightarrow> file_pattern_findall sc cs))"
  by pat_completeness auto
termination
  by (relation "measure (\<lambda>(sc, s). length s)") (auto dest: file_pattern_match_shorter)

declare file_pattern_findall.simps [simp del]

definition get_directory_url :: "datetime \<Rightarrow> string" where
  "get_directory_url date =
     ''https://sdo.gsfc.nasa.gov/assets/img/browse/'' @ strftime_Y date @ ''/''
     @ strftime_m date @ ''/'' @ strftime_d date @ ''/''"

text \<open>
  The two loops of \<open>scrape_directory\<close>: every anchor whose \<open>href\<close> matches appends its match,
  and every match in the page text is appended if it is not in the list yet.
\<close>

definition anchor_matches :: "directory_scraper \<Rightarrow> string list \<Rightarrow> string list" where
  "anchor_matches sc hrefs =
     foldl (\<lambda>image_files href.
              case file_pattern_search sc href of
                None \<Rightarrow> image_files
              | Some filename \<Rightarrow> image_files @ [filename])
           [] hrefs"

definition add_text_matches :: "string list \<Rightarrow> string list \<Rightarrow> string list" where
  "add_text_matches image_files matches =
     foldl (\<lambda>image_files m. if m \<notin> set image_files then image_files @ [m] else image_files)
           image_files matches"

text \<open>
  \<open>scrape_directory\<close>. The page is what \<open>session.get\<close> gives for the directory URL, and
  \<open>anchor_hrefs\<close> stands for the HTML parser: the \<open>href\<close> values of the page's anchors in
  document order. Every exception ends in the empty list.
\<close>

definition scrape_directory ::
  "(string \<Rightarrow> http_outcome) \<Rightarrow> (string \<Rightarrow> string list) \<Rightarrow> directory_scraper \<Rightarrow> datetime
     \<Rightarrow> string list" where
  "scrape_directory get anchor_hrefs sc date =
     (let directory_url = get_directory_url date in
      case get directory_url of
        Response status_code page_text hdr \<Rightarrow>
          if status_code = 404 then []
          else if status_code \<noteq> 200 then []
          else
            (let image_files = anchor_matches sc (anchor_hrefs page_text);
                 matches = file_pattern_findall sc page_text
             in sort (add_text_matches image_files matches))
      | _ \<Rightarrow> [])"

definition filter_new_images ::
  "(datetime \<times> string) list \<Rightarrow> storage_organizer \<Rightarrow> world \<Rightarrow> (datetime \<times> string) list" where
  "filter_new_images available_images storage_organizer w =
     foldl (\<lambda>new_images (date, filename).
              if \<not> file_exists storage_organizer w filename date
              then new_images @ [(date, filename)] else new_images)
           [] available_images"

section \<open>Example inputs\<close>

text \<open>Noon on a day of March 2024; noon on 28 and 29 February and 1 March 2024.\<close>

definition march_2024 :: "nat \<Rightarrow> datetime" where
  "march_2024 d = \<lparr>year = 2024, month = 3, day = d, hour = 12, minute = 0, second = 0, microsecond = 0,
     tzinfo = None\<rparr>"

definition feb28_2024 :: datetime where
  "feb28_2024 = \<lparr>year = 2024, month = 2, day = 28, hour = 12, minute = 0, second = 0, microsecond = 0,
     tzinfo = None\<rparr>"

definition feb29_2024 :: datetime where
  "feb29_2024 = \<lparr>year = 2024, month = 2, day = 29, hour = 12, minute = 0, second = 0, microsecond = 0,
     tzinfo = None\<rparr>"

definition mar01_2024 :: datetime where
  "mar01_2024 = \<lparr>year = 2024, month = 3, day = 1, hour = 12, minute = 0, second = 0, microsecond = 0,
     tzinfo = None\<rparr>"

definition mar02_2024 :: datetime where
  "mar02_2024 = \<lparr>year = 2024, month = 3, day = 2, hour = 12, minute = 0, second = 0, microsecond = 0,
     tzinfo = None\<rparr>"

text \<open>
  Midnight of 1 March 2024, naive and in UTC; midnight of 1 March 999; and the last
  representable date.
\<close>

definition midnight_20240301 :: datetime where
  "midnight_20240301 = \<lparr>year = 2024, month = 3, day = 1, hour = 0, minute = 0, second = 0, microsecond = 0,
     tzinfo = None\<rparr>"

definition midnight_20240301_utc :: datetime where
  "midnight_20240301_utc = \<lparr>year = 2024, month = 3, day = 1, hour = 0, minute = 0, second = 0, microsecond = 0,
     tzinfo = Some ''UTC''\<rparr>"

definition midnight_9990301 :: datetime where
  "midnight_9990301 = \<lparr>year = 999, month = 3, day = 1, hour = 0, minute = 0, second = 0, microsecond = 0,
     tzinfo = None\<rparr>"

definition max_date :: datetime where
  "max_date = \<lparr>year = 9999, month = 12, day = 31, hour = 0, minute = 0, second = 0, microsecond = 0,
     tzinfo = None\<rparr>"

text \<open>
  A world at clock 100 with no request made and no file stored; a server that answers every
  request with 404, one that never answers in time, and one that answers the first request
  with 403 and every later one with 200, each request taking a fifth of a second.
\<close>

definition idle_world :: world where
  "idle_world = \<lparr>clock = 100, trace = [], files = Map.empty\<rparr>"

definition always_404 :: env where
  "always_404 = \<lparr>respond = (\<lambda>n meth u. Response 404 [] None), latency = (\<lambda>n. 0),
                  disk_write = (\<lambda>path data. Written data), int_of_header = (\<lambda>s. None)\<rparr>"

definition always_timeout :: env where
  "always_timeout = \<lparr>respond = (\<lambda>n meth u. Timeout), latency = (\<lambda>n. 30),
                      disk_write = (\<lambda>path data. Written data), int_of_header = (\<lambda>s. None)\<rparr>"

definition forbidden_then_ok :: env where
  "forbidden_then_ok = \<lparr>respond = (\<lambda>n meth u. if n = 0 then Response 403 [] None
                                                   else Response 200 ''JPEG'' (Some ''4'')),
                         latency = (\<lambda>n. 1 / 5),
                         disk_write = (\<lambda>path data. Written data), int_of_header = (\<lambda>s. None)\<rparr>"

definition example_url :: string where
  "example_url = ''https://sdo.gsfc.nasa.gov/assets/img/browse/2024/03/01/20240301_001200_4096_0211.jpg''"

text \<open>A world two seconds after the epoch of a fresh fetcher (\<open>last_request_time = 0\<close>).\<close>

definition early_world :: world where
  "early_world = \<lparr>clock = 2, trace = [], files = Map.empty\<rparr>"

text \<open>
  A storage organizer under \<open>data\<close>, two image file names, a world in which the first of them
  is stored for 1 March 2024, and a scraper for resolution 1024 and filter 0211.
\<close>

definition example_storage :: storage_organizer where
  "example_storage = \<lparr>base_data_dir = [''data'']\<rparr>"

definition example_filename :: string where
  "example_filename = ''20240301_001200_1024_0211.jpg''"

definition other_filename :: string where
  "other_filename = ''20240301_000000_1024_0211.jpg''"

definition stored_world :: world where
  "stored_world =
     \<lparr>clock = 100, trace = [],
      files = [get_local_path example_storage example_filename midnight_20240301 \<mapsto> ''JPEG'']\<rparr>"

definition example_scraper :: directory_scraper where
  "example_scraper = \<lparr>scraper_rate_limit_delay = 1, resolution = ''1024'', solar_filter = ''0211''\<rparr>"

text \<open>
  A directory page with two anchors for the same file, and one with an anchor for one file and
  the name of another in its text only; with them the \<open>href\<close> values of their anchors.
\<close>

definition page_two_anchors :: string where
  "page_two_anchors =
     ''<a href=20240301_001200_1024_0211.jpg>image</a><a href=20240301_001200_1024_0211.jpg>again</a>''"

definition page_anchor_and_text :: string where
  "page_anchor_and_text =
     ''<a href=20240301_001200_1024_0211.jpg>image</a> 20240301_000000_1024_0211.jpg''"

text \<open>
  A server that answers every request with 200 and four bytes at once; the same server with a
  disk that refuses every write, and with a disk that keeps only the first two bytes of a write.
\<close>

definition always_ok :: env where
  "always_ok = \<lparr>respond = (\<lambda>n meth u. Response 200 ''JPEG'' (Some ''4'')), latency = (\<lambda>n. 0),
                 disk_write = (\<lambda>path data. Written data), int_of_header = (\<lambda>s. None)\<rparr>"

definition disk_full :: env where
  "disk_full = always_ok\<lparr>disk_write := (\<lambda>path data. WriteError ''No space left on device'')\<rparr>"

definition truncating_disk :: env where
  "truncating_disk = always_ok\<lparr>disk_write := (\<lambda>path data. Written (take 2 data))\<rparr>"

text \<open>
  A manager with the default fetcher, the task for the first example file, and a task whose
  file name holds no date.
\<close>

definition example_manager :: download_manager where
  "example_manager = download_manager_init (image_fetcher_init 1 5) example_storage"

definition example_task :: download_task where
  "example_task =
     \<lparr>url = ''https://sdo.gsfc.nasa.gov/assets/img/browse/2024/03/01/20240301_001200_1024_0211.jpg'',
      target_path = get_local_path example_storage example_filename midnight_20240301,
      retry_count = 0, status = PENDING, error_message = None\<rparr>"

definition undated_task :: download_task where
  "undated_task =
     \<lparr>url = ''https://sdo.gsfc.nasa.gov/assets/img/browse/latest.jpg'',
      target_path = [''data'', ''latest.jpg''],
      retry_count = 0, status = PENDING, error_message = None\<rparr>"

section \<open>Decimal strings and the URL pattern\<close>

lemma digit_val_digit_char: "n < 10 \<Longrightarrow> digit_val (digit_char n) = n"
  by (simp add: digit_val_def digit_char_def)

lemma is_digit_digit_char: "n < 10 \<Longrightarrow> is_digit (digit_char n)"
  by (simp add: is_digit_def digit_char_def)

lemma int_of_digits_snoc: "int_of_digits (s @ [c]) = 10 * int_of_digits s + digit_val c"
  by (simp add: int_of_digits_def)

lemma int_of_digits_str_nat: "int_of_digits (str_nat n) = n"
proof (induction n rule: str_nat.induct)
  case (1 n)
  show ?case
  proof (cases "n < 10")
    case True
    then show ?thesis
      by (subst str_nat.simps) (simp add: int_of_digits_def digit_val_digit_char)
  next
    case False
    with 1 show ?thesis
      by (subst str_nat.simps) (simp add: int_of_digits_snoc digit_val_digit_char)
  qed
qed

lemma str_nat_digits: "list_all is_digit (str_nat n)"
proof (induction n rule: str_nat.induct)
  case (1 n)
  then show ?case
    by (subst str_nat.simps) (simp add: is_digit_digit_char)
qed

lemma length_str_nat_10: "n < 10 \<Longrightarrow> length (str_nat n) = 1"
  by (subst str_nat.simps) simp

lemma length_str_nat_100: "n < 100 \<Longrightarrow> length (str_nat n) \<le> 2"
  by (subst str_nat.simps) (simp add: length_str_nat_10)

lemma length_str_nat_1000: "n < 1000 \<Longrightarrow> length (str_nat n) \<le> 3"
  using length_str_nat_100 [of "n div 10"] by (subst str_nat.simps) simp

lemma length_str_nat_10000: "n < 10000 \<Longrightarrow> length (str_nat n) \<le> 4"
  using length_str_nat_1000 [of "n div 10"] by (subst str_nat.simps) simp

lemma str_nat_not_empty: "str_nat n \<noteq> []"
  by (subst str_nat.simps) simp

lemma length_str_nat_ge_10: "10 \<le> n \<Longrightarrow> 2 \<le> length (str_nat n)"
  using str_nat_not_empty [of "n div 10"]
  by (subst str_nat.simps) (cases "str_nat (n div 10)", simp_all)

lemma length_str_nat_ge_100: "100 \<le> n \<Longrightarrow> 3 \<le> length (str_nat n)"
  using length_str_nat_ge_10 [of "n div 10"] by (subst str_nat.simps) simp

lemma length_str_nat_ge_1000: "1000 \<le> n \<Longrightarrow> 4 \<le> length (str_nat n)"
  using length_str_nat_ge_100 [of "n div 10"] by (subst str_nat.simps) simp

lemma length_pad_left: "length s \<le> w \<Longrightarrow> length (pad_left w s) = w"
  by (simp add: pad_left_def)

lemma digits_pad_left: "list_all is_digit s \<Longrightarrow> list_all is_digit (pad_left w s)"
  by (auto simp: pad_left_def is_digit_def list_all_iff)

lemma int_of_digits_zeros: "foldl (\<lambda>a c. 10 * a + digit_val c) 0 (replicate k (CHR ''0'')) = 0"
  by (induction k) (simp_all add: digit_val_def)

lemma int_of_digits_pad_left: "int_of_digits (pad_left w s) = int_of_digits s"
  by (simp add: pad_left_def int_of_digits_def int_of_digits_zeros)

lemma take_literal_append: "take_literal lit (lit @ s) = Some s"
  by (simp add: take_literal_def)

lemma take_digits_append:
  "length ds = n \<Longrightarrow> list_all is_digit ds \<Longrightarrow> take_digits n (ds @ s) = Some (ds, s)"
  by (simp add: take_digits_def)

lemma url_pattern_match_parts:
  assumes "length y = 4" "list_all is_digit y" "length m = 2" "list_all is_digit m"
    and "length d = 2" "list_all is_digit d" "length dp = 8" "list_all is_digit dp"
    and "length tp = 6" "list_all is_digit tp"
  shows "url_pattern_match (''https://sdo.gsfc.nasa.gov/assets/img/browse/'' @ (y @ (''/'' @ (m @ (''/''
           @ (d @ (''/'' @ (dp @ (''_'' @ (tp @ (''_4096_0211.jpg'' @ rest)))))))))))
         = Some (y, m, d, dp, tp)"
  unfolding url_pattern_match_def
  by (simp only: take_literal_append take_digits_append [OF assms(1,2)]
      take_digits_append [OF assms(3,4)] take_digits_append [OF assms(5,6)]
      take_digits_append [OF assms(7,8)] take_digits_append [OF assms(9,10)]
      option.case prod.case)

lemma strftime_Y_props:
  assumes "1000 \<le> year d" and "year d \<le> 9999"
  shows "length (strftime_Y d) = 4" "list_all is_digit (strftime_Y d)"
    "int_of_digits (strftime_Y d) = year d"
  using assms length_str_nat_10000 [of "year d"] length_str_nat_ge_1000 [of "year d"]
  by (simp_all add: strftime_Y_def str_nat_digits int_of_digits_str_nat)

lemma strftime_Y_short:
  assumes "year d < 1000"
  shows "strftime_Y d \<noteq> []" "length (strftime_Y d) \<le> 3"
  using assms length_str_nat_1000 [of "year d"]
  by (simp_all add: strftime_Y_def str_nat_not_empty)

text \<open>A year of fewer than four digits is followed by the slash too early for \<open>\d{4}\<close>.\<close>

lemma take_digits_short:
  assumes "length y \<le> 3"
  shows "take_digits 4 (y @ (''/'' @ rest)) = None"
proof -
  from assms have "CHR ''/'' \<in> set (take 4 (y @ (''/'' @ rest)))"
    by (simp add: take_Cons')
  moreover have "\<not> is_digit (CHR ''/'')"
    by (simp add: is_digit_def)
  ultimately have "\<not> list_all is_digit (take 4 (y @ (''/'' @ rest)))"
    unfolding list_all_iff by blast
  then show ?thesis
    by (simp add: take_digits_def)
qed

lemma strftime_m_props:
  assumes "month d \<le> 12"
  shows "length (strftime_m d) = 2" "list_all is_digit (strftime_m d)"
    "int_of_digits (strftime_m d) = month d"
  using assms length_str_nat_100 [of "month d"]
  by (simp_all add: strftime_m_def length_pad_left digits_pad_left str_nat_digits
      int_of_digits_pad_left int_of_digits_str_nat)

lemma strftime_d_props:
  assumes "day d \<le> 31"
  shows "length (strftime_d d) = 2" "list_all is_digit (strftime_d d)"
    "int_of_digits (strftime_d d) = day d"
  using assms length_str_nat_100 [of "day d"]
  by (simp_all add: strftime_d_def length_pad_left digits_pad_left str_nat_digits
      int_of_digits_pad_left int_of_digits_str_nat)

lemma construct_url_shape:
  "construct_url date ts =
     ''https://sdo.gsfc.nasa.gov/assets/img/browse/'' @ (strftime_Y date @ (''/'' @ (strftime_m date
       @ (''/'' @ (strftime_d date @ (''/'' @ ((strftime_Y date @ strftime_m date @ strftime_d date)
       @ (''_'' @ (ts @ (''_4096_0211.jpg'' @ []))))))))))"
  by (simp add: construct_url_def BASE_URL_def RESOLUTION_def INSTRUMENT_CODE_def)

lemma extract_construct_short_year:
  assumes "year date < 1000"
  shows "extract_metadata_from_url (construct_url date ts) = None"
proof -
  have "url_pattern_match (construct_url date ts) = None"
    unfolding construct_url_shape url_pattern_match_def
    by (simp only: take_literal_append take_digits_short [OF strftime_Y_short(2) [OF assms]]
        option.case)
  then show ?thesis
    by (simp add: extract_metadata_from_url_def)
qed

lemma extract_construct:
  assumes v: "valid_datetime date" and y4: "1000 \<le> year date"
    and ts: "length ts = 6" "list_all is_digit ts"
  shows "extract_metadata_from_url (construct_url date ts) = Some (at_midnight date, ts)"
proof -
  from v have y9: "year date \<le> 9999" and m: "month date \<le> 12"
    and d: "day date \<le> days_in_month (year date) (month date)"
    and lo: "1 \<le> year date" "1 \<le> month date" "1 \<le> day date"
    by (simp_all add: valid_datetime_def)
  from d days_in_month_le_31 [of "year date" "month date"] have d31: "day date \<le> 31"
    by simp
  have dp: "length (strftime_Y date @ strftime_m date @ strftime_d date) = 8"
    "list_all is_digit (strftime_Y date @ strftime_m date @ strftime_d date)"
    by (simp_all add: strftime_Y_props [OF y4 y9] strftime_m_props [OF m] strftime_d_props [OF d31])
  have pm: "url_pattern_match (construct_url date ts) =
      Some (strftime_Y date, strftime_m date, strftime_d date,
            strftime_Y date @ strftime_m date @ strftime_d date, ts)"
    unfolding construct_url_shape
    by (rule url_pattern_match_parts)
       (simp_all only: strftime_Y_props [OF y4 y9] strftime_m_props [OF m] strftime_d_props [OF d31]
         dp ts)
  have dn: "datetime_new (year date) (month date) (day date) = Some (at_midnight date)"
    using y9 m d lo by (cases date) (simp add: datetime_new_def at_midnight_def)
  show ?thesis
    by (simp add: extract_metadata_from_url_def pm strftime_Y_props [OF y4 y9]
        strftime_m_props [OF m] strftime_d_props [OF d31] dn)
qed


section \<open>Date arithmetic and the daily loop\<close>

lemma days_in_month_ge_28: "28 \<le> days_in_month y m"
  by (simp add: days_in_month_def)

lemma days_in_month_12: "days_in_month y 12 = 31"
  by (simp add: days_in_month_def)

lemma prev_day_props:
  assumes v: "valid_datetime d" and pd: "prev_day d = Some p"
  shows "valid_datetime p" "next_day p = Some d" "\<not> datetime_le d p"
proof -
  from v have y: "1 \<le> year d" "year d \<le> 9999" and m: "1 \<le> month d" "month d \<le> 12"
    and dd: "1 \<le> day d" "day d \<le> days_in_month (year d) (month d)"
    and t: "hour d < 24" "minute d < 60" "second d < 60" "microsecond d < 1000000"
    by (simp_all add: valid_datetime_def)
  consider (a) "1 < day d" | (b) "day d = 1" "1 < month d"
    | (c) "day d = 1" "month d = 1" "1 < year d"
    using pd dd m by (auto simp: prev_day_def split: if_splits)
  then have "valid_datetime p \<and> next_day p = Some d \<and> \<not> datetime_le d p"
  proof cases
    case a
    with pd have p: "p = d\<lparr>day := day d - 1\<rparr>" by (simp add: prev_day_def)
    from a y m dd t show ?thesis
      by (auto simp: p valid_datetime_def next_day_def datetime_le_def dt_key_def)
  next
    case b
    with pd have p: "p = d\<lparr>month := month d - 1, day := days_in_month (year d) (month d - 1)\<rparr>"
      by (simp add: prev_day_def)
    have ge: "28 \<le> days_in_month (year d) (month d - 1)" by (rule days_in_month_ge_28)
    from b y m t ge show ?thesis
      by (auto simp: p valid_datetime_def next_day_def datetime_le_def dt_key_def)
  next
    case c
    with pd have p: "p = d\<lparr>year := year d - 1, month := 12, day := 31\<rparr>"
      by (simp add: prev_day_def)
    from c y t show ?thesis
      by (auto simp: p valid_datetime_def next_day_def datetime_le_def dt_key_def
          days_in_month_12)
  qed
  then show "valid_datetime p" "next_day p = Some d" "\<not> datetime_le d p" by simp_all
qed

lemma next_day_greater: "next_day d = Some n \<Longrightarrow> \<not> datetime_le n d"
  by (auto simp: next_day_def datetime_le_def dt_key_def split: if_splits)

lemma datetime_le_refl: "datetime_le d d"
  by (simp add: datetime_le_def)

lemma datetime_le_trans: "datetime_le a b \<Longrightarrow> datetime_le b c \<Longrightarrow> datetime_le a c"
  by (simp add: datetime_le_def)

lemma datetime_le_total: "\<not> datetime_le a b \<Longrightarrow> datetime_le b a"
  by (simp add: datetime_le_def)

lemma minus_days_props:
  "valid_datetime e \<Longrightarrow> minus_days e k = Some s \<Longrightarrow> valid_datetime s \<and> datetime_le s e"
proof (induction k arbitrary: s)
  case 0
  then show ?case by (simp add: datetime_le_refl)
next
  case (Suc k)
  from Suc.prems(2) obtain m where m: "minus_days e k = Some m" and p: "prev_day m = Some s"
    by (auto split: option.splits)
  from Suc.IH [OF Suc.prems(1) m] have vm: "valid_datetime m" and le: "datetime_le m e"
    by simp_all
  from prev_day_props [OF vm p] have "valid_datetime s" "datetime_le s m"
    by (simp_all add: datetime_le_total)
  with le show ?case by (blast intro: datetime_le_trans)
qed

lemma daily_urls_loop_last_days:
  assumes "valid_datetime e" "next_day e = Some n"
  shows "minus_days e k = Some s \<Longrightarrow>
         daily_urls_loop s e acc = Inr (acc @ concat (map generate_daily_urls (last_days e k)))"
proof (induction k arbitrary: s acc)
  case 0
  then have s: "s = e" by simp
  have "daily_urls_loop e e acc = daily_urls_loop n e (acc @ generate_daily_urls e)"
    by (subst daily_urls_loop.simps) (simp add: datetime_le_refl assms(2))
  also have "\<dots> = Inr (acc @ generate_daily_urls e)"
    by (subst daily_urls_loop.simps) (simp add: next_day_greater [OF assms(2)])
  finally show ?case by (simp add: s)
next
  case (Suc k)
  from Suc.prems obtain m where m: "minus_days e k = Some m" and p: "prev_day m = Some s"
    by (auto split: option.splits)
  from minus_days_props [OF assms(1) m] have vm: "valid_datetime m" and le: "datetime_le m e"
    by simp_all
  from prev_day_props [OF vm p] have nx: "next_day s = Some m" and lt: "datetime_le s m"
    by (simp_all add: datetime_le_total)
  from lt le have "datetime_le s e" by (rule datetime_le_trans)
  then have "daily_urls_loop s e acc = daily_urls_loop m e (acc @ generate_daily_urls s)"
    by (subst daily_urls_loop.simps) (simp add: nx)
  also have "\<dots> = Inr ((acc @ generate_daily_urls s) @ concat (map generate_daily_urls (last_days e k)))"
    by (rule Suc.IH [OF m])
  finally show ?case using Suc.prems by simp
qed

lemma length_last_days:
  "minus_days e k = Some s \<Longrightarrow> length (last_days e k) = Suc k"
proof (induction k arbitrary: s)
  case 0
  then show ?case by simp
next
  case (Suc k)
  then show ?case by (auto split: option.splits)
qed

lemma nth_last_days:
  "minus_days e k = Some s \<Longrightarrow> i \<le> k \<Longrightarrow> Some (last_days e k ! i) = minus_days e (k - i)"
proof (induction k arbitrary: s i)
  case 0
  then show ?case by simp
next
  case (Suc k)
  from Suc.prems(1) obtain m where m: "minus_days e k = Some m" and p: "prev_day m = Some s"
    by (auto split: option.splits)
  show ?case
  proof (cases i)
    case 0
    then show ?thesis using m p by simp
  next
    case (Suc j)
    with Suc.prems(2) have "j \<le> k" by simp
    from Suc.IH [OF m this] show ?thesis using Suc m p by simp
  qed
qed

lemma last_days_lower:
  "valid_datetime e \<Longrightarrow> minus_days e k = Some s \<Longrightarrow> \<forall>x \<in> set (last_days e k). datetime_le s x"
proof (induction k arbitrary: s)
  case 0
  then show ?case by (simp add: datetime_le_refl)
next
  case (Suc k)
  from Suc.prems(2) obtain m where m: "minus_days e k = Some m" and p: "prev_day m = Some s"
    by (auto split: option.splits)
  from minus_days_props [OF Suc.prems(1) m] have vm: "valid_datetime m" by simp
  from prev_day_props [OF vm p] have lt: "datetime_le s m" by (simp add: datetime_le_total)
  from Suc.IH [OF Suc.prems(1) m] have "\<forall>x \<in> set (last_days e k). datetime_le m x" .
  with lt have "\<forall>x \<in> set (last_days e k). datetime_le s x"
    by (blast intro: datetime_le_trans)
  then show ?case using m p by (simp add: datetime_le_refl)
qed

lemma last_days_ascending:
  "valid_datetime e \<Longrightarrow> minus_days e k = Some s \<Longrightarrow>
   sorted_wrt (\<lambda>a b. \<not> datetime_le b a) (last_days e k)"
proof (induction k arbitrary: s)
  case 0
  then show ?case by simp
next
  case (Suc k)
  from Suc.prems(2) obtain m where m: "minus_days e k = Some m" and p: "prev_day m = Some s"
    by (auto split: option.splits)
  from minus_days_props [OF Suc.prems(1) m] have vm: "valid_datetime m" by simp
  from prev_day_props [OF vm p] have lt: "\<not> datetime_le m s" by simp
  have "\<forall>x \<in> set (last_days e k). \<not> datetime_le x s"
  proof
    fix x assume "x \<in> set (last_days e k)"
    with last_days_lower [OF Suc.prems(1) m] have "datetime_le m x" by blast
    with lt show "\<not> datetime_le x s" by (blast intro: datetime_le_trans)
  qed
  with Suc.IH [OF Suc.prems(1) m] show ?case using m p by simp
qed

lemma length_time_patterns: "length time_patterns = 360"
  by (simp add: time_patterns_def length_concat comp_def sum_list_triv)

lemma length_generate_daily_urls: "length (generate_daily_urls d) = 360"
  by (simp add: generate_daily_urls_def length_time_patterns)


section \<open>Claims about URLs, date ranges and the monitoring window\<close>

text \<open>
  Claim C5, as amended. For every valid datetime and every time sequence of six decimal
  digits, \<open>extract_metadata_from_url\<close> applied to the URL that \<open>construct_url\<close> builds
  returns, when the year has four digits, the time sequence unchanged and the date as a naive
  datetime at 00:00:00: the URL carries the calendar date only, and
  \<open>datetime(year, month, day)\<close> rebuilds it at midnight with no \<open>tzinfo\<close>. For a year below
  1000 \<open>strftime\<close> writes fewer than four digits, the pattern does not match the URL and
  the result is \<open>(None, None)\<close>. The pair comes back unchanged exactly when the datetime
  given to \<open>construct_url\<close> is naive, has a zero time of day and a year of four digits.
\<close>

theorem url_round_trip_date_only:
  assumes "valid_datetime date" and "length time_sequence = 6"
    and "list_all is_digit time_sequence"
  shows "extract_metadata_from_url (construct_url date time_sequence)
           = (if 1000 \<le> year date then Some (at_midnight date, time_sequence) else None)
         \<and> (extract_metadata_from_url (construct_url date time_sequence)
              = Some (date, time_sequence)
            \<longleftrightarrow> 1000 \<le> year date \<and> hour date = 0 \<and> minute date = 0 \<and> second date = 0
                \<and> microsecond date = 0 \<and> tzinfo date = None)"
proof (cases "1000 \<le> year date")
  case True
  have rt: "extract_metadata_from_url (construct_url date time_sequence)
              = Some (at_midnight date, time_sequence)"
    using assms(1) True assms(2,3) by (rule extract_construct)
  have "at_midnight date = date
          \<longleftrightarrow> hour date = 0 \<and> minute date = 0 \<and> second date = 0 \<and> microsecond date = 0
              \<and> tzinfo date = None"
    by (cases date) (auto simp: at_midnight_def)
  with rt True show ?thesis by simp
next
  case False
  then have "extract_metadata_from_url (construct_url date time_sequence) = None"
    by (intro extract_construct_short_year) simp
  with False show ?thesis by simp
qed

text \<open>
  Claim C5, witness: the naive midnight of 1 March 2024 with the time sequence 001200 meets the
  hypotheses and is returned unchanged; the midnight of 1 March 999 meets them too, and its URL
  gives \<open>(None, None)\<close>.
\<close>

theorem url_round_trip_date_only_witness:
  "valid_datetime midnight_20240301 \<and> length ''001200'' = 6 \<and> list_all is_digit ''001200''
   \<and> extract_metadata_from_url (construct_url midnight_20240301 ''001200'')
       = Some (midnight_20240301, ''001200'')
   \<and> valid_datetime midnight_9990301
   \<and> extract_metadata_from_url (construct_url midnight_9990301 ''001200'') = None"
proof -
  have v: "valid_datetime midnight_20240301"
    by (simp add: valid_datetime_def midnight_20240301_def days_in_month_def)
  have v9: "valid_datetime midnight_9990301"
    by (simp add: valid_datetime_def midnight_9990301_def days_in_month_def)
  have l: "length ''001200'' = 6" by simp
  have d: "list_all is_digit ''001200''" by (simp add: is_digit_def)
  have m: "at_midnight midnight_20240301 = midnight_20240301"
    by (simp add: at_midnight_def midnight_20240301_def)
  have y: "1000 \<le> year midnight_20240301" by (simp add: midnight_20240301_def)
  have y9: "\<not> 1000 \<le> year midnight_9990301" by (simp add: midnight_9990301_def)
  from url_round_trip_date_only [OF v l d] have
    r: "extract_metadata_from_url (construct_url midnight_20240301 ''001200'')
       = Some (midnight_20240301, ''001200'')"
    by (simp add: m y)
  from url_round_trip_date_only [OF v9 l d] have
    r9: "extract_metadata_from_url (construct_url midnight_9990301 ''001200'') = None"
    by (simp add: y9)
  from v l d r v9 r9 show ?thesis by blast
qed

text \<open>
  Claim C5, counterexample to the claim as stated: for noon of 1 March 2024 (a datetime as
  \<open>datetime.now()\<close> gives them) the round trip returns midnight of that day, not the datetime it
  was given; for midnight of 1 March 2024 in UTC it returns the naive midnight, which is not
  equal to an aware datetime; and for midnight of 1 March 999 it returns \<open>(None, None)\<close>.
\<close>

theorem url_round_trip_counterexample:
  "extract_metadata_from_url (construct_url mar01_2024 ''001200'')
     = Some (midnight_20240301, ''001200'')
   \<and> extract_metadata_from_url (construct_url mar01_2024 ''001200'')
     \<noteq> Some (mar01_2024, ''001200'')
   \<and> extract_metadata_from_url (construct_url midnight_20240301_utc ''001200'')
     = Some (midnight_20240301, ''001200'')
   \<and> midnight_20240301 \<noteq> midnight_20240301_utc
   \<and> extract_metadata_from_url (construct_url midnight_9990301 ''001200'') = None"
proof -
  have v: "valid_datetime mar01_2024"
    by (simp add: valid_datetime_def mar01_2024_def days_in_month_def)
  have vu: "valid_datetime midnight_20240301_utc"
    by (simp add: valid_datetime_def midnight_20240301_utc_def days_in_month_def)
  have y: "1000 \<le> year mar01_2024" by (simp add: mar01_2024_def)
  have yu: "1000 \<le> year midnight_20240301_utc" by (simp add: midnight_20240301_utc_def)
  have y9: "year midnight_9990301 < 1000" by (simp add: midnight_9990301_def)
  have m: "at_midnight mar01_2024 = midnight_20240301"
    by (simp add: at_midnight_def mar01_2024_def midnight_20240301_def)
  have mu: "at_midnight midnight_20240301_utc = midnight_20240301"
    by (simp add: at_midnight_def midnight_20240301_utc_def midnight_20240301_def)
  have ne: "midnight_20240301 \<noteq> mar01_2024"
    by (simp add: mar01_2024_def midnight_20240301_def)
  have neu: "midnight_20240301 \<noteq> midnight_20240301_utc"
    by (simp add: midnight_20240301_utc_def midnight_20240301_def)
  have r: "extract_metadata_from_url (construct_url mar01_2024 ''001200'')
          = Some (at_midnight mar01_2024, ''001200'')"
    by (rule extract_construct [OF v y]) (simp_all add: is_digit_def)
  have ru: "extract_metadata_from_url (construct_url midnight_20240301_utc ''001200'')
          = Some (at_midnight midnight_20240301_utc, ''001200'')"
    by (rule extract_construct [OF vu yu]) (simp_all add: is_digit_def)
  have r9: "extract_metadata_from_url (construct_url midnight_9990301 ''001200'') = None"
    by (rule extract_construct_short_year [OF y9])
  from r ru r9 m mu ne neu show ?thesis by simp
qed

text \<open>
  Claim C9, as amended. For \<open>days \<ge> 1\<close> and an end date such that \<open>end_date - (days - 1)\<close> days
  and \<open>end_date + 1\<close> day are representable datetimes, \<open>generate_date_range_urls\<close> returns
  the concatenation of the daily URL sets of exactly the \<open>days\<close> datetimes
  \<open>end_date - (days - 1), \<dots>, end_date\<close>, in ascending order; the default end date is
  \<open>datetime.now()\<close>.
\<close>

theorem generate_date_range_urls_window:
  assumes "1 \<le> days" and "valid_datetime end_date"
    and "sub_timedelta_days end_date (days - 1) = Some start_date"
    and "next_day end_date = Some day_after"
  shows "generate_date_range_urls now days (Some end_date)
           = Inr (concat (map generate_daily_urls (last_days end_date (nat (days - 1)))))
         \<and> generate_date_range_urls end_date days None
           = Inr (concat (map generate_daily_urls (last_days end_date (nat (days - 1)))))
         \<and> length (last_days end_date (nat (days - 1))) = nat days
         \<and> (\<forall>i < nat days. Some (last_days end_date (nat (days - 1)) ! i)
                              = minus_days end_date (nat days - 1 - i))
         \<and> sorted_wrt (\<lambda>a b. \<not> datetime_le b a) (last_days end_date (nat (days - 1)))"
proof -
  let ?k = "nat (days - 1)"
  from assms(1,3) have s: "minus_days end_date ?k = Some start_date"
    by (simp add: sub_timedelta_days_def)
  have loop: "daily_urls_loop start_date end_date []
                = Inr (concat (map generate_daily_urls (last_days end_date ?k)))"
    using daily_urls_loop_last_days [OF assms(2,4) s, of "[]"] by simp
  have g1: "generate_date_range_urls now days (Some end_date)
              = Inr (concat (map generate_daily_urls (last_days end_date ?k)))"
    using assms(3) loop by (simp add: generate_date_range_urls_def)
  have g2: "generate_date_range_urls end_date days None
              = Inr (concat (map generate_daily_urls (last_days end_date ?k)))"
    using assms(3) loop by (simp add: generate_date_range_urls_def)
  from assms(1) have k: "Suc ?k = nat days" by simp
  have len: "length (last_days end_date ?k) = nat days"
    using length_last_days [OF s] k by simp
  have nth: "\<forall>i < nat days. Some (last_days end_date ?k ! i) = minus_days end_date (nat days - 1 - i)"
  proof (intro allI impI)
    fix i assume "i < nat days"
    with k have "i \<le> ?k" by simp
    from nth_last_days [OF s this] k show
      "Some (last_days end_date ?k ! i) = minus_days end_date (nat days - 1 - i)"
      by (metis diff_Suc_1)
  qed
  have asc: "sorted_wrt (\<lambda>a b. \<not> datetime_le b a) (last_days end_date ?k)"
    by (rule last_days_ascending [OF assms(2) s])
  from g1 g2 len nth asc show ?thesis by blast
qed


lemma valid_march_2024: "1 \<le> d \<Longrightarrow> d \<le> 31 \<Longrightarrow> valid_datetime (march_2024 d)"
  by (simp add: valid_datetime_def march_2024_def days_in_month_def)

lemma next_day_march_2024: "d < 31 \<Longrightarrow> next_day (march_2024 d) = Some (march_2024 (Suc d))"
  by (simp add: next_day_def march_2024_def days_in_month_def)

lemma prev_day_march_2024: "1 < d \<Longrightarrow> prev_day (march_2024 d) = Some (march_2024 (d - 1))"
  by (simp add: prev_day_def march_2024_def)

lemma valid_mar01: "valid_datetime mar01_2024"
  by (simp add: valid_datetime_def mar01_2024_def days_in_month_def)

lemma next_day_mar01: "next_day mar01_2024 = Some mar02_2024"
  by (simp add: next_day_def mar01_2024_def mar02_2024_def days_in_month_def)

lemma prev_day_mar01: "prev_day mar01_2024 = Some feb29_2024"
  by (simp add: prev_day_def mar01_2024_def feb29_2024_def days_in_month_def is_leap_def)

lemma prev_day_feb29: "prev_day feb29_2024 = Some feb28_2024"
  by (simp add: prev_day_def feb29_2024_def feb28_2024_def)

lemma minus_days_mar01: "minus_days mar01_2024 (Suc (Suc 0)) = Some feb28_2024"
  by (simp add: prev_day_mar01 prev_day_feb29)

lemma last_days_mar01:
  "last_days mar01_2024 (Suc (Suc 0)) = [feb28_2024, feb29_2024, mar01_2024]"
  by (simp add: prev_day_mar01 prev_day_feb29)

lemma minus_days_march_2024:
  "k < d \<Longrightarrow> minus_days (march_2024 d) k = Some (march_2024 (d - k))"
  by (induction k) (simp_all add: prev_day_march_2024)

lemma last_days_march_9:
  "last_days (march_2024 9) (Suc (Suc (Suc (Suc (Suc (Suc (Suc 0)))))))
     = [march_2024 2, march_2024 3, march_2024 4, march_2024 5,
        march_2024 6, march_2024 7, march_2024 8, march_2024 9]"
  by (simp add: minus_days_march_2024 del: minus_days.simps)

lemma seven_Suc: "(7::nat) = Suc (Suc (Suc (Suc (Suc (Suc (Suc 0))))))"
  by simp

text \<open>
  Claim C9, witness: with \<open>days = 3\<close> and the end date 1 March 2024 the URLs are those of
  28 February, 29 February and 1 March; with \<open>days = 1\<close> they are those of 1 March alone.
\<close>

theorem generate_date_range_urls_window_witness:
  "generate_date_range_urls (march_2024 9) 3 (Some mar01_2024)
     = Inr (generate_daily_urls feb28_2024 @ generate_daily_urls feb29_2024
            @ generate_daily_urls mar01_2024)
   \<and> generate_date_range_urls (march_2024 9) 1 (Some mar01_2024)
     = Inr (generate_daily_urls mar01_2024)"
proof -
  have two: "nat (3 - 1) = Suc (Suc 0)" by simp
  have "sub_timedelta_days mar01_2024 (3 - 1) = minus_days mar01_2024 (nat (3 - 1))"
    unfolding sub_timedelta_days_def by simp
  then have s3: "sub_timedelta_days mar01_2024 (3 - 1) = Some feb28_2024"
    by (simp only: two minus_days_mar01)
  have s1: "sub_timedelta_days mar01_2024 (1 - 1) = Some mar01_2024"
    by (simp add: sub_timedelta_days_def)
  have l3: "last_days mar01_2024 (nat (3 - 1)) = [feb28_2024, feb29_2024, mar01_2024]"
    by (simp only: two last_days_mar01)
  have l1: "last_days mar01_2024 (nat (1 - 1)) = [mar01_2024]" by simp
  from generate_date_range_urls_window [OF _ valid_mar01 s3 next_day_mar01, of "march_2024 9"]
       generate_date_range_urls_window [OF _ valid_mar01 s1 next_day_mar01, of "march_2024 9"]
  show ?thesis unfolding l3 l1 by simp
qed

text \<open>
  Claim C9, counterexample to the claim as stated: at the end date 9999-12-31 the loop's final
  \<open>current_date += timedelta(days=1)\<close> raises \<open>OverflowError\<close>, so no URL list is returned.
\<close>

theorem generate_date_range_urls_counterexample:
  "generate_date_range_urls max_date 1 (Some max_date) = Inl OverflowError"
proof -
  have s: "sub_timedelta_days max_date (1 - 1) = Some max_date"
    by (simp add: sub_timedelta_days_def)
  have n: "next_day max_date = None"
    by (simp add: next_day_def max_date_def days_in_month_def)
  have "daily_urls_loop max_date max_date [] = Inl OverflowError"
    by (subst daily_urls_loop.simps) (simp add: n datetime_le_refl)
  with s show ?thesis by (simp add: generate_date_range_urls_def)
qed

text \<open>
  Claim C2, as amended. After \<open>set_monitoring_range(days)\<close> succeeds, \<open>get_monitoring_range\<close>
  returns \<open>days\<close>, and the next cycle at time \<open>now\<close> (with \<open>now - days\<close> days and \<open>now + 1\<close> day
  representable) generates the daily URL sets of the \<open>days + 1\<close> datetimes
  \<open>now - days, \<dots>, now\<close>: the window \<open>[now - monitoring_range_days, now]\<close> touches one calendar
  day more than \<open>monitoring_range_days\<close>.
\<close>

theorem monitoring_cycle_window:
  assumes "set_monitoring_range ml days = Inr ml'" and "valid_datetime now"
    and "sub_timedelta_days now days = Some start_date"
    and "next_day now = Some day_after"
  shows "get_monitoring_range ml' = days
         \<and> check_for_new_images_recent_urls ml' now
             = Inr (concat (map generate_daily_urls (last_days now (nat days))))
         \<and> length (last_days now (nat days)) = nat days + 1
         \<and> (\<forall>i \<le> nat days. Some (last_days now (nat days) ! i) = minus_days now (nat days - i))"
proof -
  from assms(1) have d1: "1 \<le> days" and ml': "ml' = ml\<lparr>monitoring_range_days := days\<rparr>"
    by (auto simp: set_monitoring_range_def split: if_splits)
  from ml' have get: "get_monitoring_range ml' = days"
    by (simp add: get_monitoring_range_def)
  from d1 assms(3) have s: "minus_days now (nat days) = Some start_date"
    by (simp add: sub_timedelta_days_def)
  have loop: "daily_urls_loop start_date now []
                = Inr (concat (map generate_daily_urls (last_days now (nat days))))"
    using daily_urls_loop_last_days [OF assms(2,4) s, of "[]"] by simp
  have urls: "check_for_new_images_recent_urls ml' now
                = Inr (concat (map generate_daily_urls (last_days now (nat days))))"
    using assms(3) loop by (simp add: check_for_new_images_recent_urls_def ml')
  have len: "length (last_days now (nat days)) = nat days + 1"
    using length_last_days [OF s] by simp
  have nth: "\<forall>i \<le> nat days. Some (last_days now (nat days) ! i) = minus_days now (nat days - i)"
    using nth_last_days [OF s] by blast
  from get urls len nth show ?thesis by blast
qed

text \<open>
  Claim C2, witness: a loop created with range 1 and set to range 2, checked at noon of
  1 March 2024, generates the URLs of 28 February, 29 February and 1 March.
\<close>

theorem monitoring_cycle_window_witness:
  "set_monitoring_range (monitoring_loop_init 5 1) 2
     = Inr ((monitoring_loop_init 5 1)\<lparr>monitoring_range_days := 2\<rparr>)
   \<and> get_monitoring_range ((monitoring_loop_init 5 1)\<lparr>monitoring_range_days := 2\<rparr>) = 2
   \<and> check_for_new_images_recent_urls ((monitoring_loop_init 5 1)\<lparr>monitoring_range_days := 2\<rparr>)
        mar01_2024
       = Inr (generate_daily_urls feb28_2024 @ generate_daily_urls feb29_2024
              @ generate_daily_urls mar01_2024)"
proof -
  have st: "set_monitoring_range (monitoring_loop_init 5 1) 2
              = Inr ((monitoring_loop_init 5 1)\<lparr>monitoring_range_days := 2\<rparr>)"
    by (simp add: set_monitoring_range_def)
  have two: "nat 2 = Suc (Suc 0)" by simp
  have "sub_timedelta_days mar01_2024 2 = minus_days mar01_2024 (nat 2)"
    unfolding sub_timedelta_days_def by simp
  then have s: "sub_timedelta_days mar01_2024 2 = Some feb28_2024"
    by (simp only: two minus_days_mar01)
  have l: "last_days mar01_2024 (nat 2) = [feb28_2024, feb29_2024, mar01_2024]"
    by (simp only: two last_days_mar01)
  from monitoring_cycle_window [OF st valid_mar01 s next_day_mar01] show ?thesis
    unfolding l by (simp add: st)
qed

text \<open>
  Claim C2, counterexample to the claim as stated: with \<open>monitoring_range_days = 7\<close> a cycle at
  noon of 9 March 2024 generates the URLs of the eight days 2 March to 9 March, 8 * 360 URLs,
  not those of seven days.
\<close>

theorem monitoring_cycle_counterexample:
  "check_for_new_images_recent_urls ((monitoring_loop_init 5 1)\<lparr>monitoring_range_days := 7\<rparr>)
     (march_2024 9)
   = Inr (concat (map generate_daily_urls
           [march_2024 2, march_2024 3, march_2024 4, march_2024 5,
            march_2024 6, march_2024 7, march_2024 8, march_2024 9]))
   \<and> length (concat (map generate_daily_urls
           [march_2024 2, march_2024 3, march_2024 4, march_2024 5,
            march_2024 6, march_2024 7, march_2024 8, march_2024 9])) = 8 * 360"
proof -
  have v: "valid_datetime (march_2024 9)" by (simp add: valid_march_2024)
  have n: "next_day (march_2024 9) = Some (march_2024 (Suc 9))"
    by (simp add: next_day_march_2024)
  have s: "minus_days (march_2024 9) 7 = Some (march_2024 2)"
    by (simp add: minus_days_march_2024 del: minus_days.simps)
  have l: "last_days (march_2024 9) 7
             = [march_2024 2, march_2024 3, march_2024 4, march_2024 5,
                march_2024 6, march_2024 7, march_2024 8, march_2024 9]"
    by (simp only: seven_Suc last_days_march_9)
  have sub: "sub_timedelta_days (march_2024 9) 7 = Some (march_2024 2)"
    using s by (simp add: sub_timedelta_days_def)
  have "daily_urls_loop (march_2024 2) (march_2024 9) []
          = Inr (concat (map generate_daily_urls (last_days (march_2024 9) 7)))"
    using daily_urls_loop_last_days [OF v n s, of "[]"] by simp
  then show ?thesis
    unfolding l by (simp add: check_for_new_images_recent_urls_def sub length_generate_daily_urls)
qed


section \<open>Claims about the fetcher\<close>

lemma backoff_sleeps_append: "backoff_sleeps (xs @ ys) = backoff_sleeps xs @ backoff_sleeps ys"
  by (induction xs rule: backoff_sleeps.induct) simp_all

lemma new_events_append: "trace w' = trace w @ es \<Longrightarrow> new_events w w' = es"
  by (simp add: new_events_def)

lemma enforce_rate_limit_cases:
  obtains (wait) "clock w - last_request_time f < rate_limit_delay f"
      "enforce_rate_limit f w =
         (f\<lparr>last_request_time := last_request_time f + rate_limit_delay f\<rparr>,
          w\<lparr>clock := last_request_time f + rate_limit_delay f,
            trace := trace w @ [Sleep RateLimit (rate_limit_delay f - (clock w - last_request_time f))]\<rparr>)"
  | (pass) "rate_limit_delay f \<le> clock w - last_request_time f"
      "enforce_rate_limit f w = (f\<lparr>last_request_time := clock w\<rparr>, w)"
proof (cases "clock w - last_request_time f < rate_limit_delay f")
  case True
  then show ?thesis
    by (intro wait) (simp_all add: enforce_rate_limit_def Let_def sleep_def)
next
  case False
  then show ?thesis
    by (intro pass) (simp_all add: enforce_rate_limit_def Let_def)
qed

lemma enforce_rate_limit_props:
  assumes "enforce_rate_limit f w = (f1, w1)"
  shows "rate_limit_delay f \<le> clock w1 - last_request_time f"
    and "last_request_time f1 = clock w1"
    and "max_retries f1 = max_retries f" and "rate_limit_delay f1 = rate_limit_delay f"
    and "files w1 = files w" and "request_count w1 = request_count w"
    and "\<exists>es. trace w1 = trace w @ es \<and> filter is_request es = [] \<and> backoff_sleeps es = []"
  using assms by (cases f w rule: enforce_rate_limit_cases; auto simp: request_count_def)+


lemma download_attempts_404:
  assumes "int attempt < max_retries f"
    and "respond e (request_count w) GET u = Response 404 body hdr"
  shows "download_attempts e f u attempt w =
      ((False, None, Some (''Image not found (404): '' @ u)),
       w\<lparr>clock := clock w + latency e (request_count w),
         trace := trace w @ [Request GET u (clock w)]\<rparr>)"
  using assms by (subst download_attempts.simps) (simp add: http_request_def)

lemma sublist_404: "sublist ''404'' (''Image not found (404): '' @ u)"
proof -
  have "''Image not found (404): '' @ u = ''Image not found ('' @ ''404'' @ ('')'' @ '': '' @ u)"
    by simp
  then show ?thesis unfolding sublist_def by blast
qed

text \<open>
  Claim C3, as amended. For a fetcher with \<open>max_retries \<ge> 1\<close> and a URL that the server
  answers with 404 on every attempt, \<open>download_image\<close> issues exactly one HTTP request, makes
  no backoff sleep, and returns \<open>(False, None, m)\<close> where \<open>m\<close> contains 404.
\<close>

theorem not_found_is_terminal:
  assumes "1 \<le> max_retries f"
    and "\<forall>n. \<exists>body hdr. respond e n GET u = Response 404 body hdr"
  shows "case download_image e f w u of (result, f', w') \<Rightarrow>
           result = (False, None, Some (''Image not found (404): '' @ u))
           \<and> sublist ''404'' (''Image not found (404): '' @ u)
           \<and> filter is_request (new_events w w') = [Request GET u (last_request_time f')]
           \<and> backoff_sleeps (new_events w w') = []"
proof -
  obtain f1 w1 where en: "enforce_rate_limit f w = (f1, w1)"
    by (cases "enforce_rate_limit f w")
  from enforce_rate_limit_props [OF en] obtain es where
    lt: "last_request_time f1 = clock w1" and mr: "max_retries f1 = max_retries f"
    and tr: "trace w1 = trace w @ es" and nr: "filter is_request es = []"
    and nb: "backoff_sleeps es = []"
    by blast
  from assms(2) obtain body hdr where
    r: "respond e (request_count w1) GET u = Response 404 body hdr"
    by blast
  from assms(1) mr have "int 0 < max_retries f1" by simp
  from download_attempts_404 [OF this r] have
    da: "download_attempts e f1 u 0 w1 =
      ((False, None, Some (''Image not found (404): '' @ u)),
       w1\<lparr>clock := clock w1 + latency e (request_count w1),
          trace := trace w1 @ [Request GET u (clock w1)]\<rparr>)" .
  have ne: "new_events w (w1\<lparr>clock := clock w1 + latency e (request_count w1),
              trace := trace w1 @ [Request GET u (clock w1)]\<rparr>) = es @ [Request GET u (clock w1)]"
    by (rule new_events_append) (simp add: tr)
  show ?thesis
    using sublist_404 [of u]
    by (simp add: download_image_def en da ne nr nb lt backoff_sleeps_append)
qed

text \<open>
  Claim C3, counterexample to the claim as stated: with \<open>max_retries = 0\<close> the loop body never
  runs; no request is issued (the trace stays empty) and the message is the one of the return
  after the loop.
\<close>

theorem not_found_is_terminal_counterexample:
  "download_image always_404 (image_fetcher_init 1 0) idle_world example_url
     = ((False, None, Some (''Max retries exceeded for: '' @ example_url)),
        (image_fetcher_init 1 0)\<lparr>last_request_time := 100\<rparr>, idle_world)
   \<and> trace idle_world = []"
proof -
  have en: "enforce_rate_limit (image_fetcher_init 1 0) idle_world
              = ((image_fetcher_init 1 0)\<lparr>last_request_time := 100\<rparr>, idle_world)"
    by (simp add: enforce_rate_limit_def image_fetcher_init_def idle_world_def Let_def)
  have da: "download_attempts always_404 ((image_fetcher_init 1 0)\<lparr>last_request_time := 100\<rparr>)
              example_url 0 idle_world
            = ((False, None, Some (''Max retries exceeded for: '' @ example_url)), idle_world)"
    by (subst download_attempts.simps) (simp add: image_fetcher_init_def)
  show ?thesis
    by (simp add: download_image_def en da) (simp add: idle_world_def)
qed

text \<open>
  Claim C3, witness: the default fetcher (\<open>max_retries = 5\<close>) against a server that always
  answers 404 issues the single request at clock 100.
\<close>

theorem not_found_is_terminal_witness:
  "1 \<le> max_retries (image_fetcher_init 1 5)
   \<and> (\<forall>n. \<exists>body hdr. respond always_404 n GET example_url = Response 404 body hdr)
   \<and> fst (download_image always_404 (image_fetcher_init 1 5) idle_world example_url)
       = (False, None, Some (''Image not found (404): '' @ example_url))
   \<and> trace (snd (snd (download_image always_404 (image_fetcher_init 1 5) idle_world example_url)))
       = [Request GET example_url 100]"
proof -
  have h1: "1 \<le> max_retries (image_fetcher_init 1 5)"
    by (simp add: image_fetcher_init_def)
  have h2: "\<forall>n. \<exists>body hdr. respond always_404 n GET example_url = Response 404 body hdr"
    by (simp add: always_404_def)
  have en: "enforce_rate_limit (image_fetcher_init 1 5) idle_world
              = ((image_fetcher_init 1 5)\<lparr>last_request_time := 100\<rparr>, idle_world)"
    by (simp add: enforce_rate_limit_def image_fetcher_init_def idle_world_def Let_def)
  obtain result f' w' where
    d: "download_image always_404 (image_fetcher_init 1 5) idle_world example_url = (result, f', w')"
    by (cases "download_image always_404 (image_fetcher_init 1 5) idle_world example_url")
  from not_found_is_terminal [OF h1 h2, of idle_world] d have
    res: "result = (False, None, Some (''Image not found (404): '' @ example_url))"
    and rq: "filter is_request (new_events idle_world w') = [Request GET example_url (last_request_time f')]"
    by simp_all
  from d en have f': "f' = (image_fetcher_init 1 5)\<lparr>last_request_time := 100\<rparr>"
    by (auto simp: download_image_def split: prod.splits)
  have tr: "trace w' = [Request GET example_url 100]"
    using d en
    by (subst (asm) download_image_def)
       (auto simp: download_attempts.simps [of _ _ _ 0] http_request_def always_404_def
         image_fetcher_init_def idle_world_def request_count_def split: prod.splits)
  from h1 h2 res tr d show ?thesis by simp
qed


lemma download_attempts_timeout_retry:
  assumes "int attempt < max_retries f - 1" and "respond e (request_count w) GET u = Timeout"
  shows "download_attempts e f u attempt w =
           download_attempts e f u (Suc attempt)
             (sleep Backoff (of_nat (exponential_backoff attempt)) (snd (http_request e GET u w)))"
  using assms by (subst download_attempts.simps) (simp add: http_request_def)

lemma download_attempts_timeout_last:
  assumes "int attempt = max_retries f - 1" and "respond e (request_count w) GET u = Timeout"
  shows "download_attempts e f u attempt w =
           ((False, None, Some (''Timeout downloading: '' @ u)), snd (http_request e GET u w))"
  using assms by (subst download_attempts.simps) (simp add: http_request_def)

text \<open>One timed-out attempt followed by its backoff sleep, as a step on worlds.\<close>

lemma trace_timeout_step:
  "trace (sleep Backoff s (snd (http_request e GET u w)))
     = trace w @ [Request GET u (clock w), Sleep Backoff s]"
  by (simp add: sleep_def http_request_def)

lemma trace_request_step:
  "trace (snd (http_request e GET u w)) = trace w @ [Request GET u (clock w)]"
  by (simp add: http_request_def)

lemma exponential_backoff_values:
  "exponential_backoff 0 = 1" "exponential_backoff (Suc 0) = 2"
  "exponential_backoff (Suc (Suc 0)) = 4" "exponential_backoff (Suc (Suc (Suc 0))) = 8"
  by (simp_all add: exponential_backoff_def)

text \<open>
  Claim C6. The backoff delay of an attempt is \<open>min(2 ^ attempt, 60)\<close>, and with
  \<open>max_retries = 5\<close> and a URL that times out on every attempt, \<open>download_image\<close> makes five
  requests with backoff sleeps of 1, 2, 4 and 8 seconds between them (15 seconds in all) and
  returns the failure with the timeout message. The events are those after the rate-limit step
  that opens \<open>download_image\<close>.
\<close>

theorem backoff_schedule:
  assumes "max_retries f = 5" and "\<forall>n. respond e n GET u = Timeout"
  shows "(\<forall>attempt. exponential_backoff attempt = min (2 ^ attempt) 60)
         \<and> (case download_image e f w u of (result, f', w') \<Rightarrow>
              result = (False, None, Some (''Timeout downloading: '' @ u))
              \<and> map untimed (new_events (snd (enforce_rate_limit f w)) w')
                  = [Request GET u 0, Sleep Backoff 1, Request GET u 0, Sleep Backoff 2,
                     Request GET u 0, Sleep Backoff 4, Request GET u 0, Sleep Backoff 8,
                     Request GET u 0]
              \<and> backoff_sleeps (new_events w w') = [1, 2, 4, 8]
              \<and> sum_list (backoff_sleeps (new_events w w')) = 15)"
proof -
  obtain f1 w1 where en: "enforce_rate_limit f w = (f1, w1)"
    by (cases "enforce_rate_limit f w")
  from enforce_rate_limit_props [OF en] assms(1) obtain es where
    mr: "max_retries f1 = 5" and tr: "trace w1 = trace w @ es"
    and nb: "backoff_sleeps es = []"
    by auto
  define w2 where "w2 = sleep Backoff 1 (snd (http_request e GET u w1))"
  define w3 where "w3 = sleep Backoff 2 (snd (http_request e GET u w2))"
  define w4 where "w4 = sleep Backoff 4 (snd (http_request e GET u w3))"
  define w5 where "w5 = sleep Backoff 8 (snd (http_request e GET u w4))"
  define w6 where "w6 = snd (http_request e GET u w5)"
  have t: "\<And>w. respond e (request_count w) GET u = Timeout"
    using assms(2) by simp
  have "download_attempts e f1 u 0 w1 = download_attempts e f1 u (Suc 0) w2"
    unfolding w2_def
    using download_attempts_timeout_retry [of 0 f1 e w1 u] t mr
    by (simp add: exponential_backoff_values)
  also have "\<dots> = download_attempts e f1 u (Suc (Suc 0)) w3"
    unfolding w3_def
    using download_attempts_timeout_retry [of "Suc 0" f1 e w2 u] t mr
    by (simp add: exponential_backoff_values)
  also have "\<dots> = download_attempts e f1 u (Suc (Suc (Suc 0))) w4"
    unfolding w4_def
    using download_attempts_timeout_retry [of "Suc (Suc 0)" f1 e w3 u] t mr
    by (simp add: exponential_backoff_values)
  also have "\<dots> = download_attempts e f1 u (Suc (Suc (Suc (Suc 0)))) w5"
    unfolding w5_def
    using download_attempts_timeout_retry [of "Suc (Suc (Suc 0))" f1 e w4 u] t mr
    by (simp add: exponential_backoff_values)
  also have "\<dots> = ((False, None, Some (''Timeout downloading: '' @ u)), w6)"
    unfolding w6_def
    using download_attempts_timeout_last [of "Suc (Suc (Suc (Suc 0)))" f1 e w5 u] t mr
    by simp
  finally have da: "download_attempts e f1 u 0 w1
                      = ((False, None, Some (''Timeout downloading: '' @ u)), w6)" .
  have tr6: "trace w6 = trace w1 @
      [Request GET u (clock w1), Sleep Backoff 1, Request GET u (clock w2), Sleep Backoff 2,
       Request GET u (clock w3), Sleep Backoff 4, Request GET u (clock w4), Sleep Backoff 8,
       Request GET u (clock w5)]"
    unfolding w6_def w5_def w4_def w3_def w2_def
    by (simp add: trace_timeout_step trace_request_step)
  have ne1: "new_events w1 w6 =
      [Request GET u (clock w1), Sleep Backoff 1, Request GET u (clock w2), Sleep Backoff 2,
       Request GET u (clock w3), Sleep Backoff 4, Request GET u (clock w4), Sleep Backoff 8,
       Request GET u (clock w5)]"
    by (rule new_events_append) (rule tr6)
  have ne: "new_events w w6 = es @
      [Request GET u (clock w1), Sleep Backoff 1, Request GET u (clock w2), Sleep Backoff 2,
       Request GET u (clock w3), Sleep Backoff 4, Request GET u (clock w4), Sleep Backoff 8,
       Request GET u (clock w5)]"
    by (rule new_events_append) (simp add: tr6 tr)
  have bo: "\<forall>attempt. exponential_backoff attempt = min (2 ^ attempt) 60"
    by (simp add: exponential_backoff_def)
  show ?thesis
    by (simp add: bo download_image_def en da ne1 ne nb backoff_sleeps_append)
qed

text \<open>
  Claim C6, witness: the default fetcher against a server that never answers in time.
\<close>

theorem backoff_schedule_witness:
  "max_retries (image_fetcher_init 1 5) = 5
   \<and> (\<forall>n. respond always_timeout n GET example_url = Timeout)
   \<and> fst (download_image always_timeout (image_fetcher_init 1 5) idle_world example_url)
       = (False, None, Some (''Timeout downloading: '' @ example_url))
   \<and> backoff_sleeps
        (trace (snd (snd (download_image always_timeout (image_fetcher_init 1 5) idle_world
                            example_url))))
       = [1, 2, 4, 8]"
proof -
  have h1: "max_retries (image_fetcher_init 1 5) = 5" by (simp add: image_fetcher_init_def)
  have h2: "\<forall>n. respond always_timeout n GET example_url = Timeout"
    by (simp add: always_timeout_def)
  obtain result f' w' where
    d: "download_image always_timeout (image_fetcher_init 1 5) idle_world example_url
          = (result, f', w')"
    by (cases "download_image always_timeout (image_fetcher_init 1 5) idle_world example_url")
  have ne: "new_events idle_world w' = trace w'"
    by (simp add: new_events_def idle_world_def)
  from backoff_schedule [OF h1 h2, of idle_world] d ne have
    "result = (False, None, Some (''Timeout downloading: '' @ example_url))"
    "backoff_sleeps (trace w') = [1, 2, 4, 8]"
    by simp_all
  with h1 h2 d show ?thesis by simp
qed


lemma download_attempts_extends:
  "\<exists>es. trace (snd (download_attempts e f u attempt w)) = trace w @ es"
proof (induction e f u attempt w rule: download_attempts.induct)
  case (1 e f u attempt w)
  obtain outcome w1 where o: "http_request e GET u w = (outcome, w1)"
    by (cases "http_request e GET u w")
  define w2 where "w2 = sleep Backoff (of_nat (exponential_backoff attempt)) w1"
  from o have w1: "trace w1 = trace w @ [Request GET u (clock w)]"
    by (auto simp: http_request_def)
  then have w2: "trace w2 = trace w @ [Request GET u (clock w),
                   Sleep Backoff (of_nat (exponential_backoff attempt))]"
    by (simp add: w2_def sleep_def)
  have rec: "download_attempts e f u attempt w = download_attempts e f u (Suc attempt) w2
      \<Longrightarrow> (\<exists>es. trace (snd (download_attempts e f u (Suc attempt) w2)) = trace w2 @ es)
      \<Longrightarrow> ?case"
    using w2 by auto
  have stop: "snd (download_attempts e f u attempt w) = w1 \<Longrightarrow> ?case"
    using w1 by auto
  have none: "snd (download_attempts e f u attempt w) = w \<Longrightarrow> ?case"
    by auto
  show ?case
  proof (cases "int attempt < max_retries f")
    case False
    then show ?thesis
      by (intro none) (subst download_attempts.simps, simp)
  next
    case True
    note lt = this
    show ?thesis
    proof (cases "int attempt < max_retries f - 1")
      case True
      note more = this
      show ?thesis
      proof (cases outcome)
        case (Response code content hdr)
        show ?thesis
        proof (cases "code = 200 \<or> code = 404")
          case True
          then show ?thesis
            by (intro stop) (subst download_attempts.simps, auto simp: lt o Response)
        next
          case False
          then have eq: "download_attempts e f u attempt w
                           = download_attempts e f u (Suc attempt) w2"
            by (subst download_attempts.simps) (simp add: lt o Response more w2_def)
          from False have "\<exists>es. trace (snd (download_attempts e f u (Suc attempt) w2)) = trace w2 @ es"
            unfolding w2_def
            using "1.IH"(1) [OF lt o [symmetric] Response _ _ more] by simp
          with eq show ?thesis by (rule rec)
        qed
      next
        case Timeout
        have eq: "download_attempts e f u attempt w
                    = download_attempts e f u (Suc attempt) w2"
          by (subst download_attempts.simps) (simp add: lt o Timeout more w2_def)
        have "\<exists>es. trace (snd (download_attempts e f u (Suc attempt) w2)) = trace w2 @ es"
          unfolding w2_def
          using "1.IH"(2) [OF lt o [symmetric] Timeout more] by simp
        with eq show ?thesis by (rule rec)
      next
        case ConnectionError
        have eq: "download_attempts e f u attempt w
                    = download_attempts e f u (Suc attempt) w2"
          by (subst download_attempts.simps) (simp add: lt o ConnectionError more w2_def)
        have "\<exists>es. trace (snd (download_attempts e f u (Suc attempt) w2)) = trace w2 @ es"
          unfolding w2_def
          using "1.IH"(3) [OF lt o [symmetric] ConnectionError more] by simp
        with eq show ?thesis by (rule rec)
      next
        case (OtherException msg)
        then show ?thesis
          by (intro stop) (subst download_attempts.simps, auto simp: lt o)
      qed
    next
      case False
      then show ?thesis
        by (intro stop) (subst download_attempts.simps,
            auto simp: lt o split: http_outcome.splits)
    qed
  qed
qed


lemma download_attempts_first_request:
  assumes "int attempt < max_retries f"
  shows "\<exists>rest. trace (snd (download_attempts e f u attempt w))
                  = trace w @ Request GET u (clock w) # rest"
proof -
  obtain outcome w1 where o: "http_request e GET u w = (outcome, w1)"
    by (cases "http_request e GET u w")
  define w2 where "w2 = sleep Backoff (of_nat (exponential_backoff attempt)) w1"
  from o have w1: "trace w1 = trace w @ [Request GET u (clock w)]"
    by (auto simp: http_request_def)
  then have w2: "trace w2 = trace w @ [Request GET u (clock w),
                   Sleep Backoff (of_nat (exponential_backoff attempt))]"
    by (simp add: w2_def sleep_def)
  have "snd (download_attempts e f u attempt w) = w1
        \<or> download_attempts e f u attempt w = download_attempts e f u (Suc attempt) w2"
    using assms
    by (subst download_attempts.simps, subst (2) download_attempts.simps)
       (simp add: o w2_def split: http_outcome.splits)
  then show ?thesis
  proof
    assume "snd (download_attempts e f u attempt w) = w1"
    with w1 show ?thesis by simp
  next
    assume eq: "download_attempts e f u attempt w = download_attempts e f u (Suc attempt) w2"
    from download_attempts_extends [of e f u "Suc attempt" w2] obtain es where
      "trace (snd (download_attempts e f u (Suc attempt) w2)) = trace w2 @ es"
      by blast
    with eq w2 show ?thesis by simp
  qed
qed

lemma find_request_after_sleeps:
  "filter is_request es = [] \<Longrightarrow> find is_request (es @ Request m u t # rest) = Some (Request m u t)"
  by (induction es) (auto split: if_splits)

text \<open>
  The trace of the attempts loop: from an attempt number within \<open>max_retries\<close> on, the loop
  adds the events of \<open>retry_schedule\<close> for some number of attempts, at least one and at most as
  many as are left.
\<close>

lemma download_attempts_schedule:
  "int attempt < max_retries f \<Longrightarrow>
     \<exists>n. 1 \<le> n \<and> int (attempt + n) \<le> max_retries f
       \<and> trace (snd (download_attempts e f u attempt w))
           = trace w @ retry_schedule e u attempt (clock w) (request_count w) n"
proof (induction e f u attempt w rule: download_attempts.induct)
  case (1 e f u attempt w)
  note lt = "1.prems"
  obtain outcome w1 where o: "http_request e GET u w = (outcome, w1)"
    by (cases "http_request e GET u w")
  define w2 where "w2 = sleep Backoff (of_nat (exponential_backoff attempt)) w1"
  from o have w1: "trace w1 = trace w @ [Request GET u (clock w)]"
    by (auto simp: http_request_def)
  from o have c2: "clock w2 = clock w + latency e (request_count w)
                      + of_nat (exponential_backoff attempt)"
    and r2: "request_count w2 = Suc (request_count w)"
    and t2: "trace w2 = trace w @ [Request GET u (clock w),
                   Sleep Backoff (of_nat (exponential_backoff attempt))]"
    by (auto simp: w2_def sleep_def http_request_def request_count_def)
  have stop: "snd (download_attempts e f u attempt w) = w1 \<Longrightarrow> ?case"
  proof -
    assume "snd (download_attempts e f u attempt w) = w1"
    with w1 lt have "1 \<le> (1::nat) \<and> int (attempt + 1) \<le> max_retries f
       \<and> trace (snd (download_attempts e f u attempt w))
           = trace w @ retry_schedule e u attempt (clock w) (request_count w) 1"
      by simp
    then show ?case by blast
  qed
  have rec: "download_attempts e f u attempt w = download_attempts e f u (Suc attempt) w2
      \<Longrightarrow> (\<exists>n. 1 \<le> n \<and> int (Suc attempt + n) \<le> max_retries f
            \<and> trace (snd (download_attempts e f u (Suc attempt) w2))
                = trace w2 @ retry_schedule e u (Suc attempt) (clock w2) (request_count w2) n)
      \<Longrightarrow> ?case"
  proof -
    assume eq: "download_attempts e f u attempt w = download_attempts e f u (Suc attempt) w2"
    assume "\<exists>n. 1 \<le> n \<and> int (Suc attempt + n) \<le> max_retries f
            \<and> trace (snd (download_attempts e f u (Suc attempt) w2))
                = trace w2 @ retry_schedule e u (Suc attempt) (clock w2) (request_count w2) n"
    then obtain n where n: "1 \<le> n" "int (Suc attempt + n) \<le> max_retries f"
      and tr: "trace (snd (download_attempts e f u (Suc attempt) w2))
                = trace w2 @ retry_schedule e u (Suc attempt) (clock w2) (request_count w2) n"
      by blast
    from n(1) obtain m where m: "n = Suc m" by (cases n) simp_all
    have "trace (snd (download_attempts e f u attempt w))
            = trace w @ retry_schedule e u attempt (clock w) (request_count w) (Suc n)"
      by (simp add: eq tr t2 c2 r2 m)
    with n have "1 \<le> Suc n \<and> int (attempt + Suc n) \<le> max_retries f
       \<and> trace (snd (download_attempts e f u attempt w))
           = trace w @ retry_schedule e u attempt (clock w) (request_count w) (Suc n)"
      by simp
    then show ?case by blast
  qed
  show ?case
  proof (cases "int attempt < max_retries f - 1")
    case True
    note more = this
    then have lt': "int (Suc attempt) < max_retries f" by simp
    show ?thesis
    proof (cases outcome)
      case (Response code content hdr)
      show ?thesis
      proof (cases "code = 200 \<or> code = 404")
        case True
        then show ?thesis
          by (intro stop) (subst download_attempts.simps, auto simp: lt o Response)
      next
        case False
        then have eq: "download_attempts e f u attempt w
                         = download_attempts e f u (Suc attempt) w2"
          by (subst download_attempts.simps) (simp add: lt o Response more w2_def)
        from False have "\<exists>n. 1 \<le> n \<and> int (Suc attempt + n) \<le> max_retries f
            \<and> trace (snd (download_attempts e f u (Suc attempt) w2))
                = trace w2 @ retry_schedule e u (Suc attempt) (clock w2) (request_count w2) n"
          unfolding w2_def
          using "1.IH"(1) [OF lt o [symmetric] Response _ _ more lt'] by simp
        with eq show ?thesis by (rule rec)
      qed
    next
      case Timeout
      have eq: "download_attempts e f u attempt w
                  = download_attempts e f u (Suc attempt) w2"
        by (subst download_attempts.simps) (simp add: lt o Timeout more w2_def)
      have "\<exists>n. 1 \<le> n \<and> int (Suc attempt + n) \<le> max_retries f
            \<and> trace (snd (download_attempts e f u (Suc attempt) w2))
                = trace w2 @ retry_schedule e u (Suc attempt) (clock w2) (request_count w2) n"
        unfolding w2_def
        using "1.IH"(2) [OF lt o [symmetric] Timeout more lt'] by simp
      with eq show ?thesis by (rule rec)
    next
      case ConnectionError
      have eq: "download_attempts e f u attempt w
                  = download_attempts e f u (Suc attempt) w2"
        by (subst download_attempts.simps) (simp add: lt o ConnectionError more w2_def)
      have "\<exists>n. 1 \<le> n \<and> int (Suc attempt + n) \<le> max_retries f
            \<and> trace (snd (download_attempts e f u (Suc attempt) w2))
                = trace w2 @ retry_schedule e u (Suc attempt) (clock w2) (request_count w2) n"
        unfolding w2_def
        using "1.IH"(3) [OF lt o [symmetric] ConnectionError more lt'] by simp
      with eq show ?thesis by (rule rec)
    next
      case (OtherException msg)
      then show ?thesis
        by (intro stop) (subst download_attempts.simps, auto simp: lt o)
    qed
  next
    case False
    then show ?thesis
      by (intro stop) (subst download_attempts.simps,
          auto simp: lt o split: http_outcome.splits)
  qed
qed

lemma requests_of_retry_schedule:
  "length (filter is_request (retry_schedule e u attempt t c n)) = n"
  by (induction e u attempt t c n rule: retry_schedule.induct) simp_all

lemma sleeps_of_retry_schedule:
  "map untimed (retry_schedule e u attempt t c (Suc n))
     = concat (map (\<lambda>k. [Request GET u 0, Sleep Backoff (of_nat (exponential_backoff k))])
                [attempt..<attempt + n])
       @ [Request GET u 0]"
proof (induction n arbitrary: attempt t c)
  case 0
  show ?case by simp
next
  case (Suc n)
  have "[attempt..<attempt + Suc n] = attempt # [Suc attempt..<Suc attempt + n]"
    by (simp add: upt_conv_Cons)
  with Suc show ?case by simp
qed

text \<open>
  Claim C7, as amended. Each of \<open>check_image_exists\<close>, \<open>get_image_size\<close> and
  \<open>download_image\<close> (with \<open>max_retries \<ge> 1\<close>) opens with \<open>_enforce_rate_limit\<close>: its first
  request is issued at the new \<open>last_request_time\<close>, at least \<open>rate_limit_delay\<close> seconds after
  the old one, and the only event before it is the sleep of the remaining delta, when there is
  one. The retry attempts inside \<open>download_image\<close> are preceded by the backoff sleep only:
  after the rate-limit step the events of \<open>download_image\<close> are its \<open>n\<close> requests, between one
  and \<open>max_retries\<close>, with the backoff sleep of attempt \<open>k\<close> and nothing else between request
  \<open>k\<close> and request \<open>k + 1\<close>, so that a retry is issued the duration of the failed request and
  its backoff after that request, whatever \<open>rate_limit_delay\<close> is.
\<close>

theorem rate_limit_at_entry:
  "(case check_image_exists e f w u of (r, f', w') \<Rightarrow>
      first_new_request w w' = Some (Request HEAD u (last_request_time f'))
      \<and> rate_limit_delay f \<le> last_request_time f' - last_request_time f)
   \<and> (case get_image_size e f w u of (r, f', w') \<Rightarrow>
      first_new_request w w' = Some (Request HEAD u (last_request_time f'))
      \<and> rate_limit_delay f \<le> last_request_time f' - last_request_time f)
   \<and> (1 \<le> max_retries f \<longrightarrow>
       (case download_image e f w u of (r, f', w') \<Rightarrow>
          first_new_request w w' = Some (Request GET u (last_request_time f'))
          \<and> rate_limit_delay f \<le> last_request_time f' - last_request_time f
          \<and> 1 \<le> request_count w' - request_count w
          \<and> int (request_count w' - request_count w) \<le> max_retries f
          \<and> new_events w w'
              = new_events w (snd (enforce_rate_limit f w))
                @ retry_schedule e u 0 (last_request_time f') (request_count w)
                    (request_count w' - request_count w)
          \<and> map untimed (new_events (snd (enforce_rate_limit f w)) w')
              = concat (map (\<lambda>k. [Request GET u 0,
                                     Sleep Backoff (of_nat (exponential_backoff k))])
                         [0..<request_count w' - request_count w - 1])
                @ [Request GET u 0]))
   \<and> (case enforce_rate_limit f w of (f', w') \<Rightarrow>
        last_request_time f' = clock w'
        \<and> new_events w w' =
            (if clock w - last_request_time f < rate_limit_delay f
             then [Sleep RateLimit (rate_limit_delay f - (clock w - last_request_time f))]
             else []))"
proof -
  obtain f1 w1 where en: "enforce_rate_limit f w = (f1, w1)"
    by (cases "enforce_rate_limit f w")
  from enforce_rate_limit_props [OF en] obtain es where
    gap: "rate_limit_delay f \<le> clock w1 - last_request_time f"
    and lt: "last_request_time f1 = clock w1" and mr: "max_retries f1 = max_retries f"
    and rc: "request_count w1 = request_count w"
    and tr: "trace w1 = trace w @ es" and nr: "filter is_request es = []"
    by blast
  have head: "\<And>w2. trace w2 = trace w1 @ [Request HEAD u (clock w1)] \<Longrightarrow>
      first_new_request w w2 = Some (Request HEAD u (clock w1))"
    using tr nr by (simp add: first_new_request_def new_events_def find_request_after_sleeps)
  have c1: "case check_image_exists e f w u of (r, f', w') \<Rightarrow>
      first_new_request w w' = Some (Request HEAD u (last_request_time f'))
      \<and> rate_limit_delay f \<le> last_request_time f' - last_request_time f"
    using gap lt by (simp add: check_image_exists_def en http_request_def head)
  have c2: "case get_image_size e f w u of (r, f', w') \<Rightarrow>
      first_new_request w w' = Some (Request HEAD u (last_request_time f'))
      \<and> rate_limit_delay f \<le> last_request_time f' - last_request_time f"
    using gap lt by (simp add: get_image_size_def en http_request_def head)
  have c3: "1 \<le> max_retries f \<longrightarrow>
       (case download_image e f w u of (r, f', w') \<Rightarrow>
          first_new_request w w' = Some (Request GET u (last_request_time f'))
          \<and> rate_limit_delay f \<le> last_request_time f' - last_request_time f
          \<and> 1 \<le> request_count w' - request_count w
          \<and> int (request_count w' - request_count w) \<le> max_retries f
          \<and> new_events w w'
              = new_events w (snd (enforce_rate_limit f w))
                @ retry_schedule e u 0 (last_request_time f') (request_count w)
                    (request_count w' - request_count w)
          \<and> map untimed (new_events (snd (enforce_rate_limit f w)) w')
              = concat (map (\<lambda>k. [Request GET u 0,
                                     Sleep Backoff (of_nat (exponential_backoff k))])
                         [0..<request_count w' - request_count w - 1])
                @ [Request GET u 0])"
  proof
    assume "1 \<le> max_retries f"
    with mr have m0: "int 0 < max_retries f1" by simp
    define w2 where "w2 = snd (download_attempts e f1 u 0 w1)"
    from download_attempts_first_request [OF m0, of e u w1] obtain rest where
      t2: "trace w2 = trace w1 @ Request GET u (clock w1) # rest"
      unfolding w2_def by blast
    from download_attempts_schedule [OF m0, of e u w1] obtain n where
      n1: "1 \<le> n" and nm: "int n \<le> max_retries f"
      and sch: "trace w2 = trace w1 @ retry_schedule e u 0 (clock w1) (request_count w) n"
      unfolding w2_def using mr rc by auto
    have cnt: "request_count w2 - request_count w = n"
      using rc by (simp add: request_count_def sch requests_of_retry_schedule)
    from n1 obtain m where m: "n = Suc m" by (cases n) simp_all
    have first: "first_new_request w w2 = Some (Request GET u (clock w1))"
      using t2 tr nr by (simp add: first_new_request_def new_events_def find_request_after_sleeps)
    have ev: "new_events w w2
                = new_events w w1 @ retry_schedule e u 0 (clock w1) (request_count w) n"
      by (simp add: new_events_def sch tr)
    have ev1: "new_events w1 w2 = retry_schedule e u 0 (clock w1) (request_count w) n"
      by (simp add: new_events_def sch)
    have un: "map untimed (new_events w1 w2)
                = concat (map (\<lambda>k. [Request GET u 0,
                                       Sleep Backoff (of_nat (exponential_backoff k))])
                           [0..<n - 1])
                  @ [Request GET u 0]"
      unfolding ev1 m using sleeps_of_retry_schedule [of e u 0 "clock w1" "request_count w" m]
      by simp
    have d: "download_image e f w u = (fst (download_attempts e f1 u 0 w1), f1, w2)"
      by (simp add: download_image_def en w2_def split: prod.splits)
    show "case download_image e f w u of (r, f', w') \<Rightarrow>
          first_new_request w w' = Some (Request GET u (last_request_time f'))
          \<and> rate_limit_delay f \<le> last_request_time f' - last_request_time f
          \<and> 1 \<le> request_count w' - request_count w
          \<and> int (request_count w' - request_count w) \<le> max_retries f
          \<and> new_events w w'
              = new_events w (snd (enforce_rate_limit f w))
                @ retry_schedule e u 0 (last_request_time f') (request_count w)
                    (request_count w' - request_count w)
          \<and> map untimed (new_events (snd (enforce_rate_limit f w)) w')
              = concat (map (\<lambda>k. [Request GET u 0,
                                     Sleep Backoff (of_nat (exponential_backoff k))])
                         [0..<request_count w' - request_count w - 1])
                @ [Request GET u 0]"
      unfolding d prod.case cnt
      using first gap lt n1 nm ev un by (simp add: en)
  qed
  have c4: "case enforce_rate_limit f w of (f', w') \<Rightarrow>
        last_request_time f' = clock w'
        \<and> new_events w w' =
            (if clock w - last_request_time f < rate_limit_delay f
             then [Sleep RateLimit (rate_limit_delay f - (clock w - last_request_time f))]
             else [])"
    by (cases f w rule: enforce_rate_limit_cases) (simp_all add: new_events_def)
  from c1 c2 c3 c4 show ?thesis by blast
qed


text \<open>
  The session hands every answer of the example servers to its caller: 200, 403 and 404 are
  not in \<open>status_forcelist\<close>.
\<close>

lemma example_servers_session_returns:
  "session_returns meth (respond forbidden_then_ok n meth u)"
  "session_returns meth (respond always_404 n meth u)"
  "session_returns meth (respond always_ok n meth u)"
  "session_returns meth (respond always_timeout n meth u)"
  by (cases meth; simp add: forbidden_then_ok_def always_404_def always_ok_def
        always_timeout_def status_forcelist_def)+

text \<open>
  Claim C7, witness: a fresh fetcher with a delay of 5 seconds, called at clock 2 against a
  server that answers 403 and then 200, sleeps the remaining 3 seconds and issues its first
  request at clock 5; the retry follows the backoff sleep of one second and no other sleep, 1.2
  seconds after the first request.
\<close>

theorem rate_limit_at_entry_witness:
  "1 \<le> max_retries (image_fetcher_init 5 2)
   \<and> trace (snd (snd (download_image forbidden_then_ok (image_fetcher_init 5 2) early_world
                        example_url)))
       = [Sleep RateLimit 3, Request GET example_url 5, Sleep Backoff 1,
          Request GET example_url (31 / 5)]
   \<and> first_new_request early_world
        (snd (snd (download_image forbidden_then_ok (image_fetcher_init 5 2) early_world example_url)))
       = Some (Request GET example_url 5)
   \<and> rate_limit_delay (image_fetcher_init 5 2)
       \<le> last_request_time
            (fst (snd (download_image forbidden_then_ok (image_fetcher_init 5 2) early_world
                         example_url)))
          - last_request_time (image_fetcher_init 5 2)
   \<and> map untimed
        (new_events (snd (enforce_rate_limit (image_fetcher_init 5 2) early_world))
           (snd (snd (download_image forbidden_then_ok (image_fetcher_init 5 2) early_world
                        example_url))))
       = [Request GET example_url 0, Sleep Backoff 1, Request GET example_url 0]"
proof -
  let ?f1 = "(image_fetcher_init 5 2)\<lparr>last_request_time := 5\<rparr>"
  let ?w1 = "early_world\<lparr>clock := 5, trace := [Sleep RateLimit 3]\<rparr>"
  have h: "1 \<le> max_retries (image_fetcher_init 5 2)" by (simp add: image_fetcher_init_def)
  obtain r f' w' where
    d: "download_image forbidden_then_ok (image_fetcher_init 5 2) early_world example_url = (r, f', w')"
    by (cases "download_image forbidden_then_ok (image_fetcher_init 5 2) early_world example_url")
  have en: "enforce_rate_limit (image_fetcher_init 5 2) early_world = (?f1, ?w1)"
    by (simp add: enforce_rate_limit_def image_fetcher_init_def early_world_def Let_def sleep_def)
  from d have f': "f' = ?f1"
    using en by (auto simp: download_image_def split: prod.splits)
  have da: "trace (snd (download_attempts forbidden_then_ok ?f1 example_url 0 ?w1))
              = [Sleep RateLimit 3, Request GET example_url 5, Sleep Backoff 1,
                 Request GET example_url (31 / 5)]"
    by (subst download_attempts.simps, subst download_attempts.simps)
       (simp add: http_request_def sleep_def request_count_def forbidden_then_ok_def
         image_fetcher_init_def early_world_def exponential_backoff_def)
  from d have tr: "trace w' = [Sleep RateLimit 3, Request GET example_url 5, Sleep Backoff 1,
                               Request GET example_url (31 / 5)]"
    using da by (auto simp: download_image_def en split: prod.splits)
  have cnt: "request_count w' - request_count early_world = 2"
    by (simp add: request_count_def tr early_world_def)
  from rate_limit_at_entry [where e = forbidden_then_ok and f = "image_fetcher_init 5 2"
      and w = early_world and u = example_url] h d
  have "first_new_request early_world w' = Some (Request GET example_url (last_request_time f'))"
    and "rate_limit_delay (image_fetcher_init 5 2)
           \<le> last_request_time f' - last_request_time (image_fetcher_init 5 2)"
    and "map untimed (new_events (snd (enforce_rate_limit (image_fetcher_init 5 2) early_world)) w')
           = concat (map (\<lambda>k. [Request GET example_url 0,
                                  Sleep Backoff (of_nat (exponential_backoff k))])
                      [0..<request_count w' - request_count early_world - 1])
             @ [Request GET example_url 0]"
    by simp_all
  with h d f' tr show ?thesis
    unfolding cnt by (simp add: exponential_backoff_def)
qed

text \<open>
  Claim C7, counterexample to the claim as stated: with a delay of 5 seconds and a server that
  answers 403 and then 200, the retry is issued 1.2 seconds after the first request (the
  request's fifth of a second and the backoff second), so the requests of this fetcher are not
  \<open>rate_limit_delay\<close> apart.
\<close>

theorem rate_limit_counterexample:
  "request_times (trace (snd (snd
      (download_image forbidden_then_ok (image_fetcher_init 5 2) idle_world example_url))))
     = [100, 506 / 5]
   \<and> \<not> spaced_by (rate_limit_delay (image_fetcher_init 5 2))
        (request_times (trace (snd (snd
           (download_image forbidden_then_ok (image_fetcher_init 5 2) idle_world example_url)))))"
proof -
  let ?f1 = "(image_fetcher_init 5 2)\<lparr>last_request_time := 100\<rparr>"
  have en: "enforce_rate_limit (image_fetcher_init 5 2) idle_world = (?f1, idle_world)"
    by (simp add: enforce_rate_limit_def image_fetcher_init_def idle_world_def Let_def)
  have da: "trace (snd (download_attempts forbidden_then_ok ?f1 example_url 0 idle_world))
              = [Request GET example_url 100, Sleep Backoff 1, Request GET example_url (506 / 5)]"
    by (subst download_attempts.simps, subst download_attempts.simps)
       (simp add: http_request_def sleep_def request_count_def forbidden_then_ok_def
         image_fetcher_init_def idle_world_def exponential_backoff_def)
  have tr: "trace (snd (snd
      (download_image forbidden_then_ok (image_fetcher_init 5 2) idle_world example_url)))
        = [Request GET example_url 100, Sleep Backoff 1, Request GET example_url (506 / 5)]"
    using da by (auto simp: download_image_def en split: prod.splits)
  show ?thesis
    unfolding tr by (simp add: image_fetcher_init_def)
qed

section \<open>Claims about the scraper\<close>

lemma filter_new_images_foldl:
  "foldl (\<lambda>new_images (date, filename).
            if \<not> file_exists st w filename date
            then new_images @ [(date, filename)] else new_images) acc xs
     = acc @ filter (\<lambda>(date, filename). \<not> file_exists st w filename date) xs"
  by (induction xs arbitrary: acc) (auto split: prod.splits)

lemma filter_new_images_eq_filter:
  "filter_new_images xs st w = filter (\<lambda>(date, filename). \<not> file_exists st w filename date) xs"
  by (simp add: filter_new_images_def filter_new_images_foldl)

lemma count_list_filter: "count_list (filter P xs) x = (if P x then count_list xs x else 0)"
  by (induction xs) auto

text \<open>
  Claim C4, as amended. For every list of \<open>(date, filename)\<close> tuples and every state of the
  disk, \<open>filter_new_images\<close> returns exactly the tuples whose file does not exist, in their
  original order: its set is the set difference of the discovered tuples and those present,
  it is a subsequence of the input, nothing is omitted (every tuple that is not present occurs
  as often as in the input, every present one not at all), and a list without duplicates gives
  a result without duplicates.
\<close>

theorem filter_new_images_set_difference:
  "filter_new_images available st w
     = filter (\<lambda>(date, filename). \<not> file_exists st w filename date) available
   \<and> set (filter_new_images available st w)
       = set available - {(date, filename). file_exists st w filename date}
   \<and> subseq (filter_new_images available st w) available
   \<and> (\<forall>date filename. count_list (filter_new_images available st w) (date, filename)
         = (if file_exists st w filename date then 0
            else count_list available (date, filename)))
   \<and> (distinct available \<longrightarrow> distinct (filter_new_images available st w))"
proof -
  let ?P = "\<lambda>(date, filename). \<not> file_exists st w filename date"
  have eq: "filter_new_images available st w = filter ?P available"
    by (rule filter_new_images_eq_filter)
  have s: "set (filter ?P available)
             = set available - {(date, filename). file_exists st w filename date}"
    by auto
  have sub: "subseq (filter ?P available) available"
    by (rule subseq_filter_left)
  have cnt: "\<forall>date filename. count_list (filter ?P available) (date, filename)
         = (if file_exists st w filename date then 0
            else count_list available (date, filename))"
    by (simp add: count_list_filter)
  have d: "distinct available \<longrightarrow> distinct (filter ?P available)"
    by simp
  from s sub cnt d show ?thesis unfolding eq by blast
qed

lemma paths_differ:
  "get_local_path example_storage other_filename midnight_20240301
     \<noteq> get_local_path example_storage example_filename midnight_20240301"
  by (simp add: get_local_path_def example_filename_def other_filename_def)

text \<open>
  Claim C4, witness: of two discovered files of 1 March 2024, one of them on disk, the filter
  keeps the other one.
\<close>

theorem filter_new_images_set_difference_witness:
  "distinct [(midnight_20240301, other_filename), (midnight_20240301, example_filename)]
   \<and> file_exists example_storage stored_world example_filename midnight_20240301
   \<and> \<not> file_exists example_storage stored_world other_filename midnight_20240301
   \<and> filter_new_images
        [(midnight_20240301, other_filename), (midnight_20240301, example_filename)]
        example_storage stored_world
       = [(midnight_20240301, other_filename)]
   \<and> distinct (filter_new_images
        [(midnight_20240301, other_filename), (midnight_20240301, example_filename)]
        example_storage stored_world)"
proof -
  let ?xs = "[(midnight_20240301, other_filename), (midnight_20240301, example_filename)]"
  have ne: "other_filename \<noteq> example_filename"
    by (simp add: example_filename_def other_filename_def)
  then have d: "distinct ?xs" by simp
  have e1: "file_exists example_storage stored_world example_filename midnight_20240301"
    by (simp add: file_exists_def stored_world_def)
  have e2: "\<not> file_exists example_storage stored_world other_filename midnight_20240301"
    using paths_differ by (simp add: file_exists_def stored_world_def)
  from filter_new_images_set_difference [of ?xs example_storage stored_world] d
  have "filter_new_images ?xs example_storage stored_world
          = filter (\<lambda>(date, filename). \<not> file_exists example_storage stored_world filename date) ?xs"
    and "distinct (filter_new_images ?xs example_storage stored_world)"
    by blast+
  with d e1 e2 show ?thesis by simp
qed


text \<open>
  Claim C4, counterexample to the claim as stated: a tuple that is discovered twice and is not
  on disk is returned twice, so the result has a duplicate.
\<close>

theorem filter_new_images_counterexample:
  "filter_new_images
     [(midnight_20240301, other_filename), (midnight_20240301, other_filename)]
     example_storage stored_world
     = [(midnight_20240301, other_filename), (midnight_20240301, other_filename)]
   \<and> \<not> distinct (filter_new_images
          [(midnight_20240301, other_filename), (midnight_20240301, other_filename)]
          example_storage stored_world)"
proof -
  have "\<not> file_exists example_storage stored_world other_filename midnight_20240301"
    using paths_differ by (simp add: file_exists_def stored_world_def)
  then show ?thesis by (simp add: filter_new_images_eq_filter)
qed

lemma search_example: "file_pattern_search example_scraper example_filename = Some example_filename"
  by (simp add: example_filename_def example_scraper_def file_pattern_match_def take_digits_def
      take_literal_def is_digit_def)

lemma findall_two_anchors:
  "file_pattern_findall example_scraper page_two_anchors = [example_filename, example_filename]"
  by (simp add: file_pattern_findall.simps file_pattern_match_def take_digits_def
      take_literal_def is_digit_def page_two_anchors_def example_scraper_def example_filename_def)

lemma findall_anchor_and_text:
  "file_pattern_findall example_scraper page_anchor_and_text = [example_filename, other_filename]"
  by (simp add: file_pattern_findall.simps file_pattern_match_def take_digits_def
      take_literal_def is_digit_def page_anchor_and_text_def example_scraper_def
      example_filename_def other_filename_def)


lemma anchor_matches_foldl:
  "foldl (\<lambda>image_files href.
            case file_pattern_search sc href of
              None \<Rightarrow> image_files
            | Some filename \<Rightarrow> image_files @ [filename]) acc hrefs
     = acc @ List.map_filter (file_pattern_search sc) hrefs"
  by (induction hrefs arbitrary: acc) (auto split: option.splits)

lemma anchor_matches_map_filter:
  "anchor_matches sc hrefs = List.map_filter (file_pattern_search sc) hrefs"
  by (simp add: anchor_matches_def anchor_matches_foldl)

lemma set_add_text_matches: "set (add_text_matches xs ms) = set xs \<union> set ms"
  unfolding add_text_matches_def
  by (induction ms arbitrary: xs) auto

lemma distinct_add_text_matches: "distinct xs \<Longrightarrow> distinct (add_text_matches xs ms)"
  unfolding add_text_matches_def
  by (induction ms arbitrary: xs) auto

lemma count_add_text_matches:
  "count_list (add_text_matches xs ms) x
     = (if x \<in> set xs then count_list xs x else if x \<in> set ms then 1 else 0)"
  unfolding add_text_matches_def
proof (induction ms arbitrary: xs)
  case Nil
  then show ?case by (simp add: count_list_0_iff)
next
  case (Cons m ms)
  show ?case
  proof (cases "m \<in> set xs")
    case True
    then show ?thesis using Cons.IH [of xs] by auto
  next
    case False
    then have "count_list xs m = 0" by (simp add: count_list_0_iff)
    with False show ?thesis using Cons.IH [of "xs @ [m]"]
      by (auto simp: count_list_0_iff)
  qed
qed

lemma count_list_insort: "count_list (insort a xs) x = count_list (a # xs) x"
  by (induction xs) auto

lemma count_list_sort: "count_list (sort xs) x = count_list xs x"
  by (induction xs) (simp_all add: count_list_insort)

text \<open>
  What holds of the result of \<open>scrape_directory\<close> for every page: it is empty when the
  directory page answers 404 or any other status than 200 (and when the request raises); on
  200 it is sorted, holds exactly the file names matched in an anchor's \<open>href\<close> or in the page
  text, holds once every name matched in the text and in no anchor, and has no name twice
  whenever no two anchors match the same name.
\<close>

lemma scrape_directory_shape:
  "case get (get_directory_url date) of
     Response status_code page_text hdr \<Rightarrow>
       if status_code = 200 then
         set (scrape_directory get anchor_hrefs sc date)
           = set (List.map_filter (file_pattern_search sc) (anchor_hrefs page_text))
             \<union> set (file_pattern_findall sc page_text)
         \<and> sorted (scrape_directory get anchor_hrefs sc date)
         \<and> (\<forall>x. x \<notin> set (List.map_filter (file_pattern_search sc) (anchor_hrefs page_text))
                \<longrightarrow> x \<in> set (file_pattern_findall sc page_text)
                \<longrightarrow> count_list (scrape_directory get anchor_hrefs sc date) x = 1)
         \<and> (distinct (List.map_filter (file_pattern_search sc) (anchor_hrefs page_text))
              \<longrightarrow> distinct (scrape_directory get anchor_hrefs sc date))
       else scrape_directory get anchor_hrefs sc date = []
   | _ \<Rightarrow> scrape_directory get anchor_hrefs sc date = []"
proof (cases "get (get_directory_url date)")
  case (Response status_code page_text hdr)
  show ?thesis
  proof (cases "status_code = 200")
    case True
    let ?A = "List.map_filter (file_pattern_search sc) (anchor_hrefs page_text)"
    let ?T = "file_pattern_findall sc page_text"
    have r: "scrape_directory get anchor_hrefs sc date = sort (add_text_matches ?A ?T)"
      by (simp add: scrape_directory_def Response True anchor_matches_map_filter)
    have s: "set (sort (add_text_matches ?A ?T)) = set ?A \<union> set ?T"
      by (simp add: set_add_text_matches)
    have o: "sorted (sort (add_text_matches ?A ?T))"
      by simp
    have c: "\<forall>x. x \<notin> set ?A \<longrightarrow> x \<in> set ?T \<longrightarrow> count_list (sort (add_text_matches ?A ?T)) x = 1"
      by (simp add: count_list_sort count_add_text_matches)
    have d: "distinct ?A \<longrightarrow> distinct (sort (add_text_matches ?A ?T))"
      by (simp add: distinct_add_text_matches)
    from s o c d show ?thesis
      unfolding r by (simp add: Response True)
  next
    case False
    then show ?thesis by (simp add: scrape_directory_def Response)
  qed
next
  case Timeout
  then show ?thesis by (simp add: scrape_directory_def)
next
  case ConnectionError
  then show ?thesis by (simp add: scrape_directory_def)
next
  case (OtherException msg)
  then show ?thesis by (simp add: scrape_directory_def)
qed

lemma names_order: "\<not> example_filename \<le> other_filename"
  by (simp add: example_filename_def other_filename_def)

text \<open>
  A page with an anchor for one file and the name of an earlier one in its text gives both
  names once, sorted.
\<close>

lemma scrape_directory_shape_example:
  "distinct (List.map_filter (file_pattern_search example_scraper) [example_filename])
   \<and> other_filename \<notin> set (List.map_filter (file_pattern_search example_scraper) [example_filename])
   \<and> other_filename \<in> set (file_pattern_findall example_scraper page_anchor_and_text)
   \<and> scrape_directory (\<lambda>u. Response 200 page_anchor_and_text None) (\<lambda>t. [example_filename])
        example_scraper midnight_20240301
       = [other_filename, example_filename]
   \<and> distinct (scrape_directory (\<lambda>u. Response 200 page_anchor_and_text None)
                  (\<lambda>t. [example_filename]) example_scraper midnight_20240301)
   \<and> count_list (scrape_directory (\<lambda>u. Response 200 page_anchor_and_text None)
                    (\<lambda>t. [example_filename]) example_scraper midnight_20240301)
        other_filename = 1"
proof -
  let ?get = "\<lambda>u::string. Response 200 page_anchor_and_text None"
  let ?hrefs = "\<lambda>t::string. [example_filename]"
  have ne: "other_filename \<noteq> example_filename"
    by (simp add: example_filename_def other_filename_def)
  have a: "List.map_filter (file_pattern_search example_scraper) [example_filename]
             = [example_filename]"
    by (simp add: search_example)
  have h1: "distinct (List.map_filter (file_pattern_search example_scraper) [example_filename])"
    by (simp add: search_example)
  have h2: "other_filename \<notin> set (List.map_filter (file_pattern_search example_scraper)
                                      [example_filename])"
    using ne by (simp add: search_example)
  have h3: "other_filename \<in> set (file_pattern_findall example_scraper page_anchor_and_text)"
    by (simp add: findall_anchor_and_text)
  have r: "scrape_directory ?get ?hrefs example_scraper midnight_20240301
             = [other_filename, example_filename]"
    using ne names_order
    by (simp add: scrape_directory_def anchor_matches_map_filter search_example
        findall_anchor_and_text add_text_matches_def)
  from scrape_directory_shape [where get = ?get and date = midnight_20240301
      and anchor_hrefs = ?hrefs and sc = example_scraper] h1 h2 h3
  have "distinct (scrape_directory ?get ?hrefs example_scraper midnight_20240301)"
    and "count_list (scrape_directory ?get ?hrefs example_scraper midnight_20240301)
           other_filename = 1"
    by simp_all
  with h1 h2 h3 r show ?thesis by blast
qed

text \<open>
  Claim C8. The claim holds of the code except for its promise that no file name occurs twice:
  only the matches of the page text are added if absent, and the loop over the anchors appends
  every match. On a page answered with 200 that has two anchors for the same file, the result
  holds that file name twice.
\<close>

theorem scrape_directory_two_anchors:
  "scrape_directory (\<lambda>u. Response 200 page_two_anchors None)
     (\<lambda>t. [example_filename, example_filename]) example_scraper midnight_20240301
     = [example_filename, example_filename]
   \<and> \<not> distinct (scrape_directory (\<lambda>u. Response 200 page_two_anchors None)
                    (\<lambda>t. [example_filename, example_filename]) example_scraper
                    midnight_20240301)"
proof -
  have a: "List.map_filter (file_pattern_search example_scraper)
             [example_filename, example_filename] = [example_filename, example_filename]"
    by (simp add: search_example)
  have "scrape_directory (\<lambda>u. Response 200 page_two_anchors None)
     (\<lambda>t. [example_filename, example_filename]) example_scraper midnight_20240301
     = [example_filename, example_filename]"
    by (simp add: scrape_directory_def anchor_matches_map_filter search_example
        findall_two_anchors add_text_matches_def)
  then show ?thesis by simp
qed

section \<open>Claims about the download manager\<close>






lemma example_task_name: "path_name (target_path example_task) = example_filename"
  by (simp add: example_task_def path_name_def get_local_path_def)

lemma example_date_str: "takeWhile (\<lambda>c. c \<noteq> CHR ''_'') example_filename = ''20240301''"
  by (simp add: example_filename_def)

lemma strptime_20240301: "strptime_Ymd ''20240301'' = Some midnight_20240301"
  by (simp add: strptime_Ymd_def month_alternatives_def day_alternatives_def is_digit_def
      int_of_digits_def digit_val_def datetime_new_def days_in_month_def midnight_20240301_def)

lemma example_task_date:
  "strptime_Ymd (takeWhile (\<lambda>c. c \<noteq> CHR ''_'') (path_name (target_path example_task)))
     = Some midnight_20240301"
  by (simp only: example_task_name example_date_str strptime_20240301)

lemma undated_task_date:
  "strptime_Ymd (takeWhile (\<lambda>c. c \<noteq> CHR ''_'') (path_name (target_path undated_task))) = None"
  by (simp add: undated_task_def path_name_def strptime_Ymd_def is_digit_def)

lemma example_not_stored:
  "\<not> file_exists (storage example_manager) idle_world example_filename midnight_20240301"
  by (simp add: file_exists_def idle_world_def)

text \<open>The world after the one request that the default fetcher makes from \<open>idle_world\<close>.\<close>

lemma download_image_first_answer:
  assumes "respond e 0 GET u = Response code body hdr" and "code = 200 \<or> code = 404"
    and "latency e 0 = 0"
  shows "download_image e (image_fetcher_init 1 5) idle_world u
           = ((if code = 200 then (True, Some body, None)
               else (False, None, Some (''Image not found (404): '' @ u))),
              \<lparr>rate_limit_delay = 1, max_retries = 5, last_request_time = 100\<rparr>,
              \<lparr>clock = 100, trace = [Request GET u 100], files = Map.empty\<rparr>)"
proof -
  have en: "enforce_rate_limit (image_fetcher_init 1 5) idle_world
              = (\<lparr>rate_limit_delay = 1, max_retries = 5, last_request_time = 100\<rparr>, idle_world)"
    by (simp add: enforce_rate_limit_def image_fetcher_init_def idle_world_def Let_def)
  have da: "download_attempts e \<lparr>rate_limit_delay = 1, max_retries = 5, last_request_time = 100\<rparr>
              u 0 idle_world
            = ((if code = 200 then (True, Some body, None)
               else (False, None, Some (''Image not found (404): '' @ u))),
               \<lparr>clock = 100, trace = [Request GET u 100], files = Map.empty\<rparr>)"
    using assms
    by (subst download_attempts.simps)
       (auto simp: http_request_def request_count_def idle_world_def)
  show ?thesis by (simp add: download_image_def en da)
qed

lemma example_manager_parts:
  "fetcher example_manager = image_fetcher_init 1 5" "storage example_manager = example_storage"
  "failed_tasks example_manager = []" "download_count example_manager = 0"
  by (simp_all add: example_manager_def download_manager_init_def)




lemma get_status_failed_downloads:
  "status_failed_downloads (get_status ml mgr) = length (get_failed_tasks mgr)"
  by (simp add: get_status_def)

lemma failed_tasks_iff_fetch_failed:
  "case download_and_save e mgr w task of (ok, mgr', w', task') \<Rightarrow>
     failed_tasks mgr' = (if fetch_failed e mgr w task then failed_tasks mgr @ [task']
                          else failed_tasks mgr)
     \<and> (fetch_failed e mgr w task \<longrightarrow>
          \<not> ok \<and> status task' = FAILED \<and> error_message task' \<noteq> None)"
proof -
  let ?filename = "path_name (target_path task)"
  show ?thesis
  proof (cases "strptime_Ymd (takeWhile (\<lambda>c. c \<noteq> CHR ''_'') ?filename)")
    case None
    then show ?thesis by (simp add: download_and_save_def fetch_failed_def Let_def)
  next
    case (Some date)
    note p = this
    show ?thesis
    proof (cases "file_exists (storage mgr) w ?filename date")
      case True
      with p show ?thesis by (simp add: download_and_save_def fetch_failed_def Let_def)
    next
      case False
      obtain success image_data error_msg f1 wd where
        d: "download_image e (fetcher mgr) w (url task) = ((success, image_data, error_msg), f1, wd)"
        by (metis prod_cases3)
      show ?thesis
      proof (cases "success \<and> image_data \<noteq> None \<and> image_data \<noteq> Some []")
        case True
        then have nf: "\<not> fetch_failed e mgr w task"
          using p False d by (simp add: fetch_failed_def Let_def)
        show ?thesis
          using p False d True
          by (simp add: download_and_save_def Let_def nf split: sum.splits prod.splits)
      next
        case no: False
        then have ff: "fetch_failed e mgr w task"
          using p False d by (simp add: fetch_failed_def Let_def)
        show ?thesis
          using p False d no
          by (auto simp: download_and_save_def Let_def ff)
      qed
    qed
  qed
qed

text \<open>
  Claim C10. \<open>download_and_save\<close> appends the task to \<open>failed_tasks\<close> exactly when the fetch
  fails (\<open>fetch_failed\<close>: the network fetch was reached and gave no usable bytes), and then the
  task is \<open>FAILED\<close> with an error message. A file name without a date, an exception while
  saving and a failed integrity check each return \<open>False\<close> with the task \<open>FAILED\<close> and its
  message, and leave \<open>failed_tasks\<close> as it was; \<open>get_failed_tasks\<close> returns that list and
  \<open>failed_downloads\<close> of \<open>get_status\<close> is its length.
\<close>

theorem failed_tasks_fetch_only:
  "(case download_and_save e mgr w task of (ok, mgr', w', task') \<Rightarrow>
      failed_tasks mgr' = (if fetch_failed e mgr w task then failed_tasks mgr @ [task']
                           else failed_tasks mgr)
      \<and> (fetch_failed e mgr w task \<longrightarrow>
           \<not> ok \<and> status task' = FAILED \<and> error_message task' \<noteq> None)
      \<and> get_failed_tasks mgr' = failed_tasks mgr'
      \<and> status_failed_downloads (get_status ml mgr') = length (failed_tasks mgr'))
   \<and> (strptime_Ymd (takeWhile (\<lambda>c. c \<noteq> CHR ''_'') (path_name (target_path task))) = None \<longrightarrow>
        \<not> fetch_failed e mgr w task
        \<and> download_and_save e mgr w task
            = (False, mgr, w,
               task\<lparr>status := FAILED,
                    error_message := Some (''Could not parse date from filename: ''
                                           @ path_name (target_path task))\<rparr>))
   \<and> (\<forall>date data msg f1 w1 exn.
        strptime_Ymd (takeWhile (\<lambda>c. c \<noteq> CHR ''_'') (path_name (target_path task))) = Some date
        \<longrightarrow> \<not> file_exists (storage mgr) w (path_name (target_path task)) date
        \<longrightarrow> download_image e (fetcher mgr) w (url task) = ((True, Some data, msg), f1, w1)
        \<longrightarrow> data \<noteq> []
        \<longrightarrow> save_image e (storage mgr) w1 data (path_name (target_path task)) date = Inl exn
        \<longrightarrow> \<not> fetch_failed e mgr w task
            \<and> download_and_save e mgr w task
                = (False, mgr\<lparr>fetcher := f1\<rparr>, w1,
                   task\<lparr>status := FAILED, error_message := Some (''Error saving file: '' @ exn)\<rparr>))
   \<and> (\<forall>date data msg f1 w1 saved_path w2.
        strptime_Ymd (takeWhile (\<lambda>c. c \<noteq> CHR ''_'') (path_name (target_path task))) = Some date
        \<longrightarrow> \<not> file_exists (storage mgr) w (path_name (target_path task)) date
        \<longrightarrow> download_image e (fetcher mgr) w (url task) = ((True, Some data, msg), f1, w1)
        \<longrightarrow> data \<noteq> []
        \<longrightarrow> save_image e (storage mgr) w1 data (path_name (target_path task)) date
              = Inr (saved_path, w2)
        \<longrightarrow> \<not> validate_file_integrity (storage mgr) w2 (path_name (target_path task)) date
                (length data)
        \<longrightarrow> \<not> fetch_failed e mgr w task
            \<and> download_and_save e mgr w task
                = (False, mgr\<lparr>fetcher := f1\<rparr>, w2,
                   task\<lparr>status := FAILED, error_message := Some ''File integrity check failed''\<rparr>))"
proof -
  have a: "case download_and_save e mgr w task of (ok, mgr', w', task') \<Rightarrow>
      failed_tasks mgr' = (if fetch_failed e mgr w task then failed_tasks mgr @ [task']
                           else failed_tasks mgr)
      \<and> (fetch_failed e mgr w task \<longrightarrow>
           \<not> ok \<and> status task' = FAILED \<and> error_message task' \<noteq> None)
      \<and> get_failed_tasks mgr' = failed_tasks mgr'
      \<and> status_failed_downloads (get_status ml mgr') = length (failed_tasks mgr')"
    using failed_tasks_iff_fetch_failed [of e mgr w task]
    by (simp add: get_status_failed_downloads get_failed_tasks_def split: prod.splits)
  have b: "strptime_Ymd (takeWhile (\<lambda>c. c \<noteq> CHR ''_'') (path_name (target_path task))) = None \<longrightarrow>
        \<not> fetch_failed e mgr w task
        \<and> download_and_save e mgr w task
            = (False, mgr, w,
               task\<lparr>status := FAILED,
                    error_message := Some (''Could not parse date from filename: ''
                                           @ path_name (target_path task))\<rparr>)"
    by (simp add: download_and_save_def fetch_failed_def Let_def)
  have c: "\<forall>date data msg f1 w1 exn.
        strptime_Ymd (takeWhile (\<lambda>c. c \<noteq> CHR ''_'') (path_name (target_path task))) = Some date
        \<longrightarrow> \<not> file_exists (storage mgr) w (path_name (target_path task)) date
        \<longrightarrow> download_image e (fetcher mgr) w (url task) = ((True, Some data, msg), f1, w1)
        \<longrightarrow> data \<noteq> []
        \<longrightarrow> save_image e (storage mgr) w1 data (path_name (target_path task)) date = Inl exn
        \<longrightarrow> \<not> fetch_failed e mgr w task
            \<and> download_and_save e mgr w task
                = (False, mgr\<lparr>fetcher := f1\<rparr>, w1,
                   task\<lparr>status := FAILED, error_message := Some (''Error saving file: '' @ exn)\<rparr>)"
    by (simp add: download_and_save_def fetch_failed_def Let_def)
  have d: "\<forall>date data msg f1 w1 saved_path w2.
        strptime_Ymd (takeWhile (\<lambda>c. c \<noteq> CHR ''_'') (path_name (target_path task))) = Some date
        \<longrightarrow> \<not> file_exists (storage mgr) w (path_name (target_path task)) date
        \<longrightarrow> download_image e (fetcher mgr) w (url task) = ((True, Some data, msg), f1, w1)
        \<longrightarrow> data \<noteq> []
        \<longrightarrow> save_image e (storage mgr) w1 data (path_name (target_path task)) date
              = Inr (saved_path, w2)
        \<longrightarrow> \<not> validate_file_integrity (storage mgr) w2 (path_name (target_path task)) date
                (length data)
        \<longrightarrow> \<not> fetch_failed e mgr w task
            \<and> download_and_save e mgr w task
                = (False, mgr\<lparr>fetcher := f1\<rparr>, w2,
                   task\<lparr>status := FAILED, error_message := Some ''File integrity check failed''\<rparr>)"
    by (simp add: download_and_save_def fetch_failed_def Let_def)
  from a b c d show ?thesis by blast
qed


lemma download_image_example_ok:
  assumes "respond e 0 GET (url example_task) = Response 200 ''JPEG'' (Some ''4'')"
    and "latency e 0 = 0"
  shows "download_image e (fetcher example_manager) idle_world (url example_task)
           = ((True, Some ''JPEG'', None),
              \<lparr>rate_limit_delay = 1, max_retries = 5, last_request_time = 100\<rparr>,
              \<lparr>clock = 100, trace = [Request GET (url example_task) 100], files = Map.empty\<rparr>)"
  using download_image_first_answer [OF assms(1) _ assms(2)]
  by (simp add: example_manager_parts)

lemma example_save_path:
  "get_date_path example_storage midnight_20240301 @ [example_filename] = target_path example_task"
  by (simp add: example_task_def get_local_path_def)

text \<open>
  Claim C10, witness: a task without a date in its file name, a disk that refuses the write and
  a disk that truncates it each fail the task without appending it; a server that answers 404
  fails the fetch, and the task is the one entry of \<open>failed_tasks\<close>.
\<close>

theorem failed_tasks_fetch_only_witness:
  "download_and_save always_ok example_manager idle_world undated_task
     = (False, example_manager, idle_world,
        undated_task\<lparr>status := FAILED,
          error_message := Some (''Could not parse date from filename: ''
                                 @ path_name (target_path undated_task))\<rparr>)
   \<and> download_and_save disk_full example_manager idle_world example_task
     = (False,
        example_manager\<lparr>fetcher := \<lparr>rate_limit_delay = 1, max_retries = 5, last_request_time = 100\<rparr>\<rparr>,
        \<lparr>clock = 100, trace = [Request GET (url example_task) 100], files = Map.empty\<rparr>,
        example_task\<lparr>status := FAILED,
          error_message := Some (''Error saving file: '' @ ''No space left on device'')\<rparr>)
   \<and> download_and_save truncating_disk example_manager idle_world example_task
     = (False,
        example_manager\<lparr>fetcher := \<lparr>rate_limit_delay = 1, max_retries = 5, last_request_time = 100\<rparr>\<rparr>,
        \<lparr>clock = 100, trace = [Request GET (url example_task) 100],
         files = [target_path example_task \<mapsto> ''JP'']\<rparr>,
        example_task\<lparr>status := FAILED, error_message := Some ''File integrity check failed''\<rparr>)
   \<and> fetch_failed always_404 example_manager idle_world example_task
   \<and> map status (get_failed_tasks
         (fst (snd (download_and_save always_404 example_manager idle_world example_task))))
       = [FAILED]
   \<and> status_failed_downloads (get_status (monitoring_loop_init 5 1)
         (fst (snd (download_and_save always_404 example_manager idle_world example_task)))) = 1"
proof -
  let ?f1 = "\<lparr>rate_limit_delay = 1, max_retries = 5, last_request_time = 100\<rparr>"
  let ?w1 = "\<lparr>clock = 100, trace = [Request GET (url example_task) 100], files = Map.empty\<rparr>"
  have ns: "\<not> file_exists (storage example_manager) idle_world
              (path_name (target_path example_task)) midnight_20240301"
    using example_not_stored by (simp add: example_task_name)
  have ne: "''JPEG'' \<noteq> []" by simp
  \<comment> \<open>the file name holds no date\<close>
  from failed_tasks_fetch_only [of always_ok example_manager idle_world undated_task]
    undated_task_date
  have r1: "download_and_save always_ok example_manager idle_world undated_task
     = (False, example_manager, idle_world,
        undated_task\<lparr>status := FAILED,
          error_message := Some (''Could not parse date from filename: ''
                                 @ path_name (target_path undated_task))\<rparr>)"
    by blast
  \<comment> \<open>the write raises\<close>
  have d2: "download_image disk_full (fetcher example_manager) idle_world (url example_task)
              = ((True, Some ''JPEG'', None), ?f1, ?w1)"
    by (rule download_image_example_ok) (simp_all add: disk_full_def always_ok_def)
  have s2: "save_image disk_full (storage example_manager) ?w1 ''JPEG''
              (path_name (target_path example_task)) midnight_20240301
            = Inl ''No space left on device''"
    by (simp add: save_image_def Let_def disk_full_def)
  from failed_tasks_fetch_only [of disk_full example_manager idle_world example_task]
  have "\<forall>date data msg f1 w1 exn.
        strptime_Ymd (takeWhile (\<lambda>c. c \<noteq> CHR ''_'') (path_name (target_path example_task))) = Some date
        \<longrightarrow> \<not> file_exists (storage example_manager) idle_world (path_name (target_path example_task)) date
        \<longrightarrow> download_image disk_full (fetcher example_manager) idle_world (url example_task)
              = ((True, Some data, msg), f1, w1)
        \<longrightarrow> data \<noteq> []
        \<longrightarrow> save_image disk_full (storage example_manager) w1 data
              (path_name (target_path example_task)) date = Inl exn
        \<longrightarrow> \<not> fetch_failed disk_full example_manager idle_world example_task
            \<and> download_and_save disk_full example_manager idle_world example_task
                = (False, example_manager\<lparr>fetcher := f1\<rparr>, w1,
                   example_task\<lparr>status := FAILED,
                     error_message := Some (''Error saving file: '' @ exn)\<rparr>)"
    by blast
  from this [rule_format, OF example_task_date ns d2 ne s2]
  have r2: "download_and_save disk_full example_manager idle_world example_task
     = (False, example_manager\<lparr>fetcher := ?f1\<rparr>, ?w1,
        example_task\<lparr>status := FAILED,
          error_message := Some (''Error saving file: '' @ ''No space left on device'')\<rparr>)"
    by simp
  \<comment> \<open>the write leaves a shorter file\<close>
  have d3: "download_image truncating_disk (fetcher example_manager) idle_world (url example_task)
              = ((True, Some ''JPEG'', None), ?f1, ?w1)"
    by (rule download_image_example_ok) (simp_all add: truncating_disk_def always_ok_def)
  have s3: "save_image truncating_disk (storage example_manager) ?w1 ''JPEG''
              (path_name (target_path example_task)) midnight_20240301
            = Inr (target_path example_task,
                   \<lparr>clock = 100, trace = [Request GET (url example_task) 100],
                    files = [target_path example_task \<mapsto> ''JP'']\<rparr>)"
    by (simp add: save_image_def Let_def truncating_disk_def example_task_name
        example_manager_parts example_save_path)
  have v3: "\<not> validate_file_integrity (storage example_manager)
               \<lparr>clock = 100, trace = [Request GET (url example_task) 100],
                files = [target_path example_task \<mapsto> ''JP'']\<rparr>
               (path_name (target_path example_task)) midnight_20240301 (length ''JPEG'')"
    by (simp add: validate_file_integrity_def get_file_size_def get_local_path_def
        example_task_name example_manager_parts example_save_path)
  from failed_tasks_fetch_only [of truncating_disk example_manager idle_world example_task]
  have "\<forall>date data msg f1 w1 saved_path w2.
        strptime_Ymd (takeWhile (\<lambda>c. c \<noteq> CHR ''_'') (path_name (target_path example_task))) = Some date
        \<longrightarrow> \<not> file_exists (storage example_manager) idle_world (path_name (target_path example_task)) date
        \<longrightarrow> download_image truncating_disk (fetcher example_manager) idle_world (url example_task)
              = ((True, Some data, msg), f1, w1)
        \<longrightarrow> data \<noteq> []
        \<longrightarrow> save_image truncating_disk (storage example_manager) w1 data
              (path_name (target_path example_task)) date = Inr (saved_path, w2)
        \<longrightarrow> \<not> validate_file_integrity (storage example_manager) w2
                (path_name (target_path example_task)) date (length data)
        \<longrightarrow> \<not> fetch_failed truncating_disk example_manager idle_world example_task
            \<and> download_and_save truncating_disk example_manager idle_world example_task
                = (False, example_manager\<lparr>fetcher := f1\<rparr>, w2,
                   example_task\<lparr>status := FAILED,
                     error_message := Some ''File integrity check failed''\<rparr>)"
    by blast
  from this [rule_format, OF example_task_date ns d3 ne s3 v3]
  have r3: "download_and_save truncating_disk example_manager idle_world example_task
     = (False, example_manager\<lparr>fetcher := ?f1\<rparr>,
        \<lparr>clock = 100, trace = [Request GET (url example_task) 100],
         files = [target_path example_task \<mapsto> ''JP'']\<rparr>,
        example_task\<lparr>status := FAILED, error_message := Some ''File integrity check failed''\<rparr>)"
    by simp
  \<comment> \<open>the fetch fails\<close>
  have d4: "download_image always_404 (fetcher example_manager) idle_world (url example_task)
              = ((False, None, Some (''Image not found (404): '' @ url example_task)), ?f1, ?w1)"
    using download_image_first_answer [of always_404 "url example_task" 404 "[]" None]
    by (simp add: always_404_def example_manager_parts)
  have ff: "fetch_failed always_404 example_manager idle_world example_task"
    using ns by (simp add: fetch_failed_def Let_def example_task_date d4)
  obtain ok mgr' w' task' where
    r: "download_and_save always_404 example_manager idle_world example_task = (ok, mgr', w', task')"
    by (metis prod_cases4)
  from failed_tasks_fetch_only [of always_404 example_manager idle_world example_task
      "monitoring_loop_init 5 1"] r ff
  have "failed_tasks mgr' = failed_tasks example_manager @ [task']" and "status task' = FAILED"
    and "get_failed_tasks mgr' = failed_tasks mgr'"
    and "status_failed_downloads (get_status (monitoring_loop_init 5 1) mgr')
           = length (failed_tasks mgr')"
    by simp_all
  then have r4: "map status (get_failed_tasks mgr') = [FAILED]"
    and r5: "status_failed_downloads (get_status (monitoring_loop_init 5 1) mgr') = 1"
    by (simp_all add: example_manager_parts)
  from r1 r2 r3 ff r4 r5 r show ?thesis by simp
qed

end
